theory Spec2Isabelle
  imports Complex_Main "HOL-Library.Sublist"
begin

section \<open>Strings as Python sees them\<close>

text \<open>
  Strings are \<^typ>\<open>string\<close>; the model covers ASCII text, where a character of the
  source is one \<^typ>\<open>char\<close>.  \<open>int(s)\<close> of Python is \<open>py_int\<close>: surrounding blanks,
  tabs, line feeds, vertical tabs, form feeds and carriage returns are dropped, one
  sign is allowed, the digits may be grouped by single underscores and there are at
  most 4300 of them (the limit of Python 3.11); anything else is the \<open>ValueError\<close> of
  the source, here \<open>None\<close>.  \<open>str.strip\<close> and the \<open>\s\<close> of regular expressions drop
  the four separator characters U+001C to U+001F as well.
\<close>

definition newline :: char where
  "newline = CHR 0x0A"

definition is_space :: "char \<Rightarrow> bool" where
  "is_space c = (c \<in> set [CHR '' '', CHR 0x09, CHR 0x0A, CHR 0x0B, CHR 0x0C, CHR 0x0D,
                           CHR 0x1C, CHR 0x1D, CHR 0x1E, CHR 0x1F])"

definition strip :: "string \<Rightarrow> string" where
  "strip s = rev (dropWhile is_space (rev (dropWhile is_space s)))"

definition is_int_space :: "char \<Rightarrow> bool" where
  "is_int_space c = (c \<in> set [CHR '' '', CHR 0x09, CHR 0x0A, CHR 0x0B, CHR 0x0C, CHR 0x0D])"

definition int_strip :: "string \<Rightarrow> string" where
  "int_strip s = rev (dropWhile is_int_space (rev (dropWhile is_int_space s)))"

definition MAX_STR_DIGITS :: nat where
  "MAX_STR_DIGITS = 4300"

definition is_digit :: "char \<Rightarrow> bool" where
  "is_digit c = (c \<in> set ''0123456789'')"

definition digit_val :: "char \<Rightarrow> nat" where
  "digit_val c = of_char c - 48"

definition digits_val :: "string \<Rightarrow> nat" where
  "digits_val ds = foldl (\<lambda>n c. 10 * n + digit_val c) 0 ds"

fun no_double_underscore :: "string \<Rightarrow> bool" where
  "no_double_underscore (a # b # cs) =
     (if a = CHR ''_'' \<and> b = CHR ''_'' then False else no_double_underscore (b # cs))"
| "no_double_underscore cs = True"

definition valid_digits :: "string \<Rightarrow> bool" where
  "valid_digits s =
     (case s of [] \<Rightarrow> False
      | c # cs \<Rightarrow> is_digit c \<and> is_digit (last s)
                  \<and> list_all (\<lambda>x. is_digit x \<or> x = CHR ''_'') s
                  \<and> no_double_underscore s)"

definition py_nat :: "string \<Rightarrow> nat option" where
  "py_nat s =
     (if valid_digits s \<and> length (filter is_digit s) \<le> MAX_STR_DIGITS
      then Some (digits_val (filter is_digit s)) else None)"

definition py_int :: "string \<Rightarrow> int option" where
  "py_int s =
     (case int_strip s of
        [] \<Rightarrow> None
      | c # cs \<Rightarrow>
          if c = CHR ''-'' then map_option (\<lambda>n. - int n) (py_nat cs)
          else if c = CHR ''+'' then map_option int (py_nat cs)
          else map_option int (py_nat (c # cs)))"

definition lower_char :: "char \<Rightarrow> char" where
  "lower_char c =
     (let n = (of_char c :: nat) in if 65 \<le> n \<and> n \<le> 90 then char_of (n + 32) else c)"

definition lower :: "string \<Rightarrow> string" where
  "lower s = map lower_char s"

text \<open>\<open>x in s\<close> on strings: \<open>x\<close> occurs in \<open>s\<close> as a contiguous block.\<close>

fun contains :: "string \<Rightarrow> string \<Rightarrow> bool" where
  "contains [] x = (x = [])"
| "contains (c # cs) x = (prefix x (c # cs) \<or> contains cs x)"

text \<open>\<open>s.replace(old, new)\<close> for a non-empty \<open>old\<close>, left to right without overlap.\<close>

fun replace_fuel :: "nat \<Rightarrow> string \<Rightarrow> string \<Rightarrow> string \<Rightarrow> string" where
  "replace_fuel 0 old new s = s"
| "replace_fuel (Suc k) old new [] = []"
| "replace_fuel (Suc k) old new (c # cs) =
     (if prefix old (c # cs) then new @ replace_fuel k old new (drop (length old) (c # cs))
      else c # replace_fuel k old new cs)"

definition replace :: "string \<Rightarrow> string \<Rightarrow> string \<Rightarrow> string" where
  "replace old new s = replace_fuel (length s) old new s"

section \<open>Parsed documents\<close>

text \<open>
  \<open>BeautifulSoup(response.text, 'html.parser')\<close> is a library call; a response carries
  the tree it parses to.  A tag is always true in a condition of the source
  (\<open>Tag.__bool__\<close>), whatever it contains.
\<close>

datatype node = Text string | Elem string "(string \<times> string) list" "node list"

fun tag :: "node \<Rightarrow> string" where
  "tag (Text s) = []"
| "tag (Elem t a cs) = t"

fun attrs :: "node \<Rightarrow> (string \<times> string) list" where
  "attrs (Text s) = []"
| "attrs (Elem t a cs) = a"

fun elems :: "node \<Rightarrow> node list" where
  "elems (Text s) = []"
| "elems (Elem t a cs) = Elem t a cs # concat (map elems cs)"

fun strings :: "node \<Rightarrow> string list" where
  "strings (Text s) = [s]"
| "strings (Elem t a cs) = concat (map strings cs)"

definition descendants :: "node \<Rightarrow> node list" where
  "descendants n = (case n of Text s \<Rightarrow> [] | Elem t a cs \<Rightarrow> concat (map elems cs))"

definition find_all :: "node \<Rightarrow> string list \<Rightarrow> node list" where
  "find_all n names = filter (\<lambda>e. tag e \<in> set names) (descendants n)"

definition get_attr :: "node \<Rightarrow> string \<Rightarrow> string option" where
  "get_attr n k = map_of (attrs n) k"

fun join :: "string \<Rightarrow> string list \<Rightarrow> string" where
  "join sep [] = []"
| "join sep [x] = x"
| "join sep (x # y # ys) = x @ sep @ join sep (y # ys)"

definition get_text_strip :: "node \<Rightarrow> string" where
  "get_text_strip n = concat (filter (\<lambda>s. s \<noteq> []) (map strip (strings n)))"

definition get_text_sep :: "string \<Rightarrow> node \<Rightarrow> string" where
  "get_text_sep sep n = join sep (strings n)"

definition get_text :: "node \<Rightarrow> string" where
  "get_text n = concat (strings n)"

section \<open>The world: network, clock and files\<close>

record response =
  status_code :: int
  headers :: "(string \<times> string) list"
  soup :: node
  content :: string

datatype outcome = Responded response | Raised

datatype event = Get string | Sleep rat | Write string string

fun requested :: "event list \<Rightarrow> string list" where
  "requested [] = []"
| "requested (Get u # es) = u # requested es"
| "requested (e # es) = requested es"

fun slept :: "event list \<Rightarrow> rat list" where
  "slept [] = []"
| "slept (Sleep d # es) = d # slept es"
| "slept (e # es) = slept es"

record world =
  log :: "event list"
  clock :: rat
  files :: "string \<rightharpoonup> string"

definition sleep :: "rat \<Rightarrow> 'a world_scheme \<Rightarrow> 'a world_scheme" where
  "sleep d w = w\<lparr>log := log w @ [Sleep d], clock := clock w + d\<rparr>"

text \<open>
  The server answers a request from the requests made so far and the address asked
  for; an exception of the HTTP library is \<open>Raised\<close>.
\<close>

type_synonym server = "string list \<Rightarrow> string \<Rightarrow> outcome"

definition http_get :: "server \<Rightarrow> string \<Rightarrow> 'a world_scheme \<Rightarrow> outcome \<times> 'a world_scheme" where
  "http_get srv url w = (srv (requested (log w)) url, w\<lparr>log := log w @ [Get url]\<rparr>)"

definition header_get :: "(string \<times> string) list \<Rightarrow> string \<Rightarrow> string option" where
  "header_get hs k = map_of (map (\<lambda>(a, b). (lower a, b)) hs) (lower k)"

section \<open>gpu_optimised.py: RequestManager\<close>

definition MAX_RETRIES :: nat where
  "MAX_RETRIES = 3"

definition MIN_DELAY :: rat where
  "MIN_DELAY = 1 / 2"

definition SESSION_DURATION :: rat where
  "SESSION_DURATION = 300"

definition SESSION_REQUESTS :: nat where
  "SESSION_REQUESTS = 100"

record manager = world +
  last_request_time :: rat
  request_count :: nat
  session_start :: rat
  sessions :: nat

definition rotate_session :: "manager \<Rightarrow> manager" where
  "rotate_session s = s\<lparr>session_start := clock s, request_count := 0, sessions := sessions s + 1\<rparr>"

definition throttle :: "manager \<Rightarrow> manager" where
  "throttle s =
     (let elapsed = clock s - last_request_time s
      in if elapsed < MIN_DELAY then sleep (MIN_DELAY - elapsed) s else s)"

definition rotate_if_due :: "manager \<Rightarrow> manager" where
  "rotate_if_due s =
     (if clock s - session_start s > SESSION_DURATION \<or> request_count s \<ge> SESSION_REQUESTS
      then rotate_session s else s)"

text \<open>
  \<open>int(response.headers.get('Retry-After', 30))\<close>: 30 when the header is absent, the
  parsed header otherwise, \<open>None\<close> for the \<open>ValueError\<close> of a header that is no integer.
\<close>

definition retry_after :: "response \<Rightarrow> int option" where
  "retry_after r =
     (case header_get (headers r) ''Retry-After'' of None \<Rightarrow> Some 30 | Some v \<Rightarrow> py_int v)"

text \<open>
  \<open>time.sleep(n)\<close> of an integer raises \<open>ValueError\<close> when \<open>n\<close> is negative and
  \<open>OverflowError\<close> when \<open>n\<close> seconds are more than \<open>2 ^ 63 - 1\<close> nanoseconds, that is
  from 9223372037 on.
\<close>

definition sleep_raises :: "int \<Rightarrow> bool" where
  "sleep_raises n = (n < 0 \<or> 9223372036 < n)"

text \<open>
  The body of \<open>for attempt in range(MAX_RETRIES)\<close>, over the attempt numbers still to
  run.  Everything in the \<open>try\<close> block that raises ends in the handler, which sleeps
  \<open>2 ** attempt\<close>: the request itself, \<open>int\<close> of a header that is no integer, and
  \<open>time.sleep\<close> of a number it refuses.
\<close>

fun attempts :: "server \<Rightarrow> string \<Rightarrow> nat list \<Rightarrow> manager \<Rightarrow> response option \<times> manager" where
  "attempts srv url [] s = (None, s)"
| "attempts srv url (attempt # rest) s =
     (case http_get srv url s of
        (Raised, s1) \<Rightarrow> attempts srv url rest (sleep (2 ^ attempt) s1)
      | (Responded r, s1) \<Rightarrow>
          if status_code r = 200
          then (Some r, s1\<lparr>last_request_time := clock s1, request_count := request_count s1 + 1\<rparr>)
          else if status_code r = 429
          then (case retry_after r of
                  None \<Rightarrow> attempts srv url rest (sleep (2 ^ attempt) s1)
                | Some n \<Rightarrow>
                    if sleep_raises n then attempts srv url rest (sleep (2 ^ attempt) s1)
                    else attempts srv url rest (sleep (of_int n) s1))
          else attempts srv url rest (sleep (2 ^ attempt) s1))"

definition RequestManager_make_request ::
  "server \<Rightarrow> string \<Rightarrow> manager \<Rightarrow> response option \<times> manager" where
  "RequestManager_make_request srv url s =
     attempts srv url [0..<MAX_RETRIES] (rotate_if_due (throttle s))"


section \<open>Helpers shared by the two scripts\<close>

text \<open>\<open>str(n)\<close> and the \<open>{n:03d}\<close> family of formats, for the numbers the scripts print.\<close>

fun str_nat :: "nat \<Rightarrow> string" where
  "str_nat n =
     (if n < 10 then [char_of (48 + n)] else str_nat (n div 10) @ [char_of (48 + n mod 10)])"

declare str_nat.simps [simp del]

definition str_int :: "int \<Rightarrow> string" where
  "str_int i = (if i < 0 then CHR ''-'' # str_nat (nat (- i)) else str_nat (nat i))"

definition zero_pad :: "nat \<Rightarrow> nat \<Rightarrow> string" where
  "zero_pad width n = replicate (width - length (str_nat n)) (CHR ''0'') @ str_nat n"

text \<open>\<open>os.path.join\<close> on POSIX, for two components.\<close>

definition path_join :: "string \<Rightarrow> string \<Rightarrow> string" where
  "path_join a b =
     (if b \<noteq> [] \<and> hd b = CHR ''/'' then b
      else if a = [] \<or> last a = CHR ''/'' then a @ b
      else a @ ''/'' @ b)"

text \<open>
  \<open>open(p, 'w')\<close> creates the file or empties the one that is there; every write then
  appends to it.  \<open>write_upto k\<close> is the file system after the first \<open>k\<close> chunks: with
  \<open>k\<close> the number of chunks it is the finished write, with a smaller \<open>k\<close> what a write
  cut short at that point leaves behind.
\<close>

definition open_w :: "string \<Rightarrow> (string \<rightharpoonup> string) \<Rightarrow> (string \<rightharpoonup> string)" where
  "open_w p fs = fs(p \<mapsto> [])"

definition write_chunk :: "string \<Rightarrow> string \<Rightarrow> (string \<rightharpoonup> string) \<Rightarrow> (string \<rightharpoonup> string)" where
  "write_chunk p c fs = fs(p \<mapsto> (case fs p of None \<Rightarrow> c | Some old \<Rightarrow> old @ c))"

definition write_upto ::
  "nat \<Rightarrow> string \<Rightarrow> string list \<Rightarrow> (string \<rightharpoonup> string) \<Rightarrow> (string \<rightharpoonup> string)" where
  "write_upto k p chunks fs = fold (write_chunk p) (take k chunks) (open_w p fs)"

definition write_file :: "string \<Rightarrow> string list \<Rightarrow> 'a world_scheme \<Rightarrow> 'a world_scheme" where
  "write_file p chunks w =
     w\<lparr>log := log w @ [Write p (concat chunks)],
       files := write_upto (length chunks) p chunks (files w)\<rparr>"

definition exists :: "string \<Rightarrow> 'a world_scheme \<Rightarrow> bool" where
  "exists p w = (files w p \<noteq> None)"

text \<open>A string or \<open>None\<close> in a condition: true when it is a non-empty string.\<close>

definition truthy :: "string option \<Rightarrow> bool" where
  "truthy v = (case v of None \<Rightarrow> False | Some s \<Rightarrow> s \<noteq> [])"

text \<open>\<open>re.sub(r'\n{3,}', '\n\n', text)\<close>: a run of three or more newlines becomes two.\<close>

definition emit_newlines :: "nat \<Rightarrow> string" where
  "emit_newlines n = replicate (if 3 \<le> n then 2 else n) newline"

fun squeeze :: "nat \<Rightarrow> string \<Rightarrow> string" where
  "squeeze n [] = emit_newlines n"
| "squeeze n (c # cs) =
     (if c = newline then squeeze (Suc n) cs else emit_newlines n @ c # squeeze 0 cs)"

definition clean_text :: "node \<Rightarrow> string" where
  "clean_text c = squeeze 0 (get_text_sep [newline, newline] c)"

definition page_marker :: "string \<Rightarrow> string" where
  "page_marker n = [newline, newline] @ ''--- PAGE '' @ n @ '' ---'' @ [newline, newline]"

subsection \<open>Selecting the content of a page\<close>

datatype selector = ByTag string | ById string string | ByClass string string

fun words_acc :: "string \<Rightarrow> string \<Rightarrow> string list" where
  "words_acc cur [] = (if cur = [] then [] else [cur])"
| "words_acc cur (c # cs) =
     (if is_space c then (if cur = [] then words_acc [] cs else cur # words_acc [] cs)
      else words_acc (cur @ [c]) cs)"

definition classes :: "node \<Rightarrow> string list" where
  "classes n = (case get_attr n ''class'' of None \<Rightarrow> [] | Some v \<Rightarrow> words_acc [] v)"

fun matches :: "selector \<Rightarrow> node \<Rightarrow> bool" where
  "matches (ByTag t) n = (tag n = t)"
| "matches (ById t i) n = (tag n = t \<and> get_attr n ''id'' = Some i)"
| "matches (ByClass t c) n = (tag n = t \<and> c \<in> set (classes n))"

definition find_first :: "(node \<Rightarrow> bool) \<Rightarrow> node \<Rightarrow> node option" where
  "find_first P n = (case filter P (descendants n) of [] \<Rightarrow> None | e # es \<Rightarrow> Some e)"

definition select_one :: "node \<Rightarrow> selector \<Rightarrow> node option" where
  "select_one sp sel = find_first (matches sel) sp"

definition long_enough :: "node option \<Rightarrow> bool" where
  "long_enough c = (case c of None \<Rightarrow> False | Some e \<Rightarrow> 100 < length (get_text_strip e))"

text \<open>
  The selector loop of both scripts.  The variable \<open>content\<close> of the source, here
  \<open>chosen\<close>, is assigned in every round and the loop leaves by \<open>break\<close> when the
  selected tag has more than 100 characters; when no round breaks, the variable keeps
  what the last selector gave.
\<close>

fun select_loop :: "node \<Rightarrow> selector list \<Rightarrow> node option \<Rightarrow> node option" where
  "select_loop sp [] chosen = chosen"
| "select_loop sp (sel # rest) chosen =
     (let chosen' = select_one sp sel
      in if long_enough chosen' then chosen' else select_loop sp rest chosen')"

text \<open>\<open>max(xs, key=f)\<close> on a non-empty list: the first of the largest.\<close>

fun max_by :: "('a \<Rightarrow> nat) \<Rightarrow> 'a \<Rightarrow> 'a list \<Rightarrow> 'a" where
  "max_by f best [] = best"
| "max_by f best (x # xs) = (if f best < f x then max_by f x xs else max_by f best xs)"

definition text_blocks :: "node \<Rightarrow> node list" where
  "text_blocks sp =
     filter (\<lambda>t. 500 < length (get_text_strip t)) (find_all sp [''div'', ''article'', ''section''])"

definition extract_content :: "selector list \<Rightarrow> node \<Rightarrow> node option" where
  "extract_content sels sp =
     (case select_loop sp sels None of
        Some c \<Rightarrow> Some c
      | None \<Rightarrow> (case text_blocks sp of
                   [] \<Rightarrow> None
                 | b # bs \<Rightarrow> Some (max_by (\<lambda>t. length (get_text_strip t)) b bs)))"

subsection \<open>Classifying images\<close>

definition denylisted :: "string \<Rightarrow> bool" where
  "denylisted src = list_ex (\<lambda>x. contains (lower src) x) [''icon'', ''logo'', ''button'', ''nav'']"

definition px_int :: "string \<Rightarrow> int option" where
  "px_int v = py_int (replace ''px'' [] v)"

definition extension :: "response \<Rightarrow> string" where
  "extension r =
     (let content_type = lower (case header_get (headers r) ''Content-Type'' of
                                  None \<Rightarrow> [] | Some v \<Rightarrow> v)
      in if contains content_type ''png'' then ''png''
         else if contains content_type ''gif'' then ''gif''
         else ''jpg'')"


subsection \<open>The progress record\<close>

record month_metadata =
  year :: int
  month :: string
  has_text :: bool
  has_scan :: bool
  text_source :: "string option"
  scan_source :: "string option"

type_synonym metadata = "string \<rightharpoonup> (string \<rightharpoonup> month_metadata)"

record versions =
  text_url :: "string option"
  scan_url :: "string option"

text \<open>
  What the scripts take from their libraries and their surroundings: the server,
  \<open>urljoin\<close>, the MD5 digest in hexadecimal, the chunks \<open>json.dump\<close> writes for a
  dictionary, and for the thread pool the order in which the tasks of a batch finish.
\<close>

record env =
  server :: server
  urljoin :: "string \<Rightarrow> string \<Rightarrow> string"
  md5_hexdigest :: "string \<Rightarrow> string"
  json_chunks :: "metadata \<Rightarrow> string list"
  schedule :: "nat \<Rightarrow> nat list"

definition OUTPUT_DIR :: string where
  "OUTPUT_DIR = ''akhandjyoti_content''"

definition metadata_file :: string where
  "metadata_file = path_join OUTPUT_DIR ''metadata.json''"

definition month_dir :: "int \<Rightarrow> string \<Rightarrow> string" where
  "month_dir y m = path_join (path_join OUTPUT_DIR (str_int y)) m"

definition text_file :: "int \<Rightarrow> string \<Rightarrow> string" where
  "text_file y m = path_join (month_dir y m) (m @ ''_'' @ str_int y @ ''_text.txt'')"

definition scan_dir :: "int \<Rightarrow> string \<Rightarrow> string" where
  "scan_dir y m = path_join (month_dir y m) ''scanned_pages''"

definition initial_metadata :: "int \<Rightarrow> string \<Rightarrow> month_metadata" where
  "initial_metadata y m =
     \<lparr>year = y, month = m, has_text = False, has_scan = False,
      text_source = None, scan_source = None\<rparr>"

text \<open>\<open>metadata[str(year)][month] = month_metadata\<close>; \<open>main\<close> has created the year's entry.\<close>

definition set_month :: "int \<Rightarrow> string \<Rightarrow> month_metadata \<Rightarrow> metadata \<Rightarrow> metadata" where
  "set_month y m mm md =
     md(str_int y \<mapsto> (case md (str_int y) of None \<Rightarrow> Map.empty | Some ms \<Rightarrow> ms)(m \<mapsto> mm))"

definition save_metadata :: "env \<Rightarrow> metadata \<Rightarrow> 'a world_scheme \<Rightarrow> 'a world_scheme" where
  "save_metadata E md w = write_file metadata_file (json_chunks E md) w"

section \<open>gpu_optimised.py: pages, text and scans\<close>

definition find_pagination :: "node \<Rightarrow> node option" where
  "find_pagination sp =
     (case find_first (\<lambda>e. ''pagination'' \<in> set (classes e)) sp of
        Some e \<Rightarrow> Some e
      | None \<Rightarrow> find_first (\<lambda>e. get_attr e ''id'' = Some ''pagination'') sp)"

definition max_detected :: "node \<Rightarrow> int" where
  "max_detected pagination =
     foldl (\<lambda>best link. case py_int (get_text link) of
                           None \<Rightarrow> best
                         | Some page_num \<Rightarrow> if best < page_num then page_num else best)
           0 (find_all pagination [''a''])"

definition detected_pages :: "response option \<Rightarrow> int \<Rightarrow> int" where
  "detected_pages resp max_pages =
     (case resp of
        None \<Rightarrow> max_pages
      | Some r \<Rightarrow>
          (case find_pagination (soup r) of
             None \<Rightarrow> max_pages
           | Some pagination \<Rightarrow>
               if 0 < max_detected pagination then min max_pages (max_detected pagination)
               else max_pages))"

definition gpu_page_url :: "string \<Rightarrow> int \<Rightarrow> string" where
  "gpu_page_url url page =
     (if \<not> contains url ''.'' then url @ ''.'' @ str_int page
      else take (length url - 2) url @ ''.'' @ str_int page)"

definition gpu_get_pagination_links ::
  "server \<Rightarrow> string \<Rightarrow> int \<Rightarrow> manager \<Rightarrow> string list \<times> manager" where
  "gpu_get_pagination_links srv url max_pages s =
     (case RequestManager_make_request srv url s of
        (resp, s1) \<Rightarrow> (url # map (gpu_page_url url) [2..detected_pages resp max_pages], s1))"

definition gpu_selectors :: "selector list" where
  "gpu_selectors =
     [ById ''div'' ''contentArtcile'', ByClass ''div'' ''article-content'',
      ByClass ''div'' ''content'', ByTag ''article'', ByTag ''main'',
      ByClass ''div'' ''post-content'', ByClass ''div'' ''entry-content'']"

text \<open>\<open>re.search(r'\.(\d+)$', page_url)\<close>, with \<open>"1"\<close> when nothing matches.\<close>

definition url_page_num :: "string \<Rightarrow> string" where
  "url_page_num url =
     (let s = (if url \<noteq> [] \<and> last url = newline then butlast url else url);
          ds = rev (takeWhile is_digit (rev s));
          front = dropWhile is_digit (rev s)
      in if ds \<noteq> [] \<and> front \<noteq> [] \<and> hd front = CHR ''.'' then ds else ''1'')"

definition process_text_page :: "server \<Rightarrow> string \<Rightarrow> manager \<Rightarrow> string option \<times> manager" where
  "process_text_page srv page_url s =
     (case RequestManager_make_request srv page_url s of
        (None, s1) \<Rightarrow> (None, s1)
      | (Some r, s1) \<Rightarrow>
          (case extract_content gpu_selectors (soup r) of
             None \<Rightarrow> (None, s1)
           | Some c \<Rightarrow> (Some (page_marker (url_page_num page_url) @ clean_text c), s1)))"

text \<open>
  The pool runs one task per page; a task is taken as a whole, and the tasks finish in
  the order \<open>schedule\<close> gives for the batch, which is the order \<open>as_completed\<close> hands
  them to the loop.
\<close>

definition completion_order :: "(nat \<Rightarrow> nat list) \<Rightarrow> 'a list \<Rightarrow> 'a list" where
  "completion_order sched tasks =
     map (\<lambda>i. tasks ! i) (filter (\<lambda>i. i < length tasks) (sched (length tasks)))"

fun run_text_pages :: "server \<Rightarrow> string list \<Rightarrow> manager \<Rightarrow> string option list \<times> manager" where
  "run_text_pages srv [] s = ([], s)"
| "run_text_pages srv (u # us) s =
     (case process_text_page srv u s of
        (r, s1) \<Rightarrow> (case run_text_pages srv us s1 of (rs, s2) \<Rightarrow> (r # rs, s2)))"

text \<open>The loop over \<open>as_completed\<close>: \<open>all_text\<close> and \<open>content_found\<close>.\<close>

fun gather :: "string option list \<Rightarrow> string \<times> bool \<Rightarrow> string \<times> bool" where
  "gather [] acc = acc"
| "gather (page_text # rest) (all_text, content_found) =
     (if truthy page_text then gather rest (all_text @ the page_text, True)
      else gather rest (all_text, content_found))"

definition gpu_download_text_content ::
  "env \<Rightarrow> string \<Rightarrow> string \<Rightarrow> manager \<Rightarrow> bool \<times> manager" where
  "gpu_download_text_content E url output_file s =
     (case gpu_get_pagination_links (server E) url 36 s of
        (page_urls, s1) \<Rightarrow>
          (case run_text_pages (server E) (completion_order (schedule E) page_urls) s1 of
             (results, s2) \<Rightarrow>
               (case gather results ([], False) of
                  (all_text, content_found) \<Rightarrow>
                    if \<not> content_found then (False, s2)
                    else (True, write_file output_file [all_text] s2))))"

definition gpu_size_ok :: "node \<Rightarrow> bool" where
  "gpu_size_ok img =
     (let width = (case get_attr img ''width'' of None \<Rightarrow> ''0'' | Some v \<Rightarrow> v);
          height = (case get_attr img ''height'' of None \<Rightarrow> ''0'' | Some v \<Rightarrow> v)
      in case px_int width of
           None \<Rightarrow> True
         | Some w \<Rightarrow>
             if w < 300 then False
             else (case px_int height of None \<Rightarrow> True | Some h \<Rightarrow> \<not> h < 300))"

fun gpu_scan_images ::
  "env \<Rightarrow> string \<Rightarrow> nat \<Rightarrow> string \<Rightarrow> node list \<Rightarrow> nat \<Rightarrow> manager \<Rightarrow> nat \<times> manager" where
  "gpu_scan_images E page_url page_index output_dir [] downloaded s = (downloaded, s)"
| "gpu_scan_images E page_url page_index output_dir (img # imgs) downloaded s =
     (case get_attr img ''src'' of
        None \<Rightarrow> gpu_scan_images E page_url page_index output_dir imgs downloaded s
      | Some src \<Rightarrow>
          if denylisted src \<or> \<not> gpu_size_ok img
          then gpu_scan_images E page_url page_index output_dir imgs downloaded s
          else (case RequestManager_make_request (server E) (urljoin E page_url src) s of
                  (None, s1) \<Rightarrow> gpu_scan_images E page_url page_index output_dir imgs downloaded s1
                | (Some r, s1) \<Rightarrow>
                    gpu_scan_images E page_url page_index output_dir imgs (downloaded + 1)
                      (write_file
                         (path_join output_dir
                            (''page_'' @ zero_pad 3 (page_index + 1) @ ''_''
                             @ take 8 (md5_hexdigest E (urljoin E page_url src))
                             @ ''.'' @ extension r))
                         [content r] s1)))"

definition process_scan_page ::
  "env \<Rightarrow> string \<Rightarrow> nat \<Rightarrow> string \<Rightarrow> manager \<Rightarrow> nat \<times> manager" where
  "process_scan_page E page_url page_index output_dir s =
     (case RequestManager_make_request (server E) page_url s of
        (None, s1) \<Rightarrow> (0, s1)
      | (Some r, s1) \<Rightarrow>
          gpu_scan_images E page_url page_index output_dir (find_all (soup r) [''img'']) 0 s1)"

fun run_scan_pages ::
  "env \<Rightarrow> string \<Rightarrow> (nat \<times> string) list \<Rightarrow> nat \<Rightarrow> manager \<Rightarrow> nat \<times> manager" where
  "run_scan_pages E output_dir [] downloaded s = (downloaded, s)"
| "run_scan_pages E output_dir ((page_index, page_url) # rest) downloaded s =
     (case process_scan_page E page_url page_index output_dir s of
        (n, s1) \<Rightarrow> run_scan_pages E output_dir rest (downloaded + n) s1)"

definition gpu_download_scan_images ::
  "env \<Rightarrow> string \<Rightarrow> string \<Rightarrow> manager \<Rightarrow> bool \<times> manager" where
  "gpu_download_scan_images E url output_dir s =
     (case gpu_get_pagination_links (server E) url 66 s of
        (page_urls, s1) \<Rightarrow>
          (case run_scan_pages E output_dir
                  (completion_order (schedule E) (zip [0..<length page_urls] page_urls)) 0 s1 of
             (downloaded, s2) \<Rightarrow> (0 < downloaded, s2)))"

text \<open>
  One round of the loop over the months of a year in \<open>main\<close>: the text version is tried
  first, the scan version when no text was obtained, and the record is saved.
\<close>

definition gpu_try_text ::
  "env \<Rightarrow> int \<Rightarrow> string \<Rightarrow> versions \<Rightarrow> manager \<Rightarrow> month_metadata \<times> bool \<times> manager" where
  "gpu_try_text E y m v s =
     (if truthy (text_url v)
      then (if \<not> exists (text_file y m) s
            then (case gpu_download_text_content E (the (text_url v)) (text_file y m) s of
                    (success, s1) \<Rightarrow>
                      if success
                      then (initial_metadata y m\<lparr>has_text := True, text_source := text_url v\<rparr>,
                            True, s1)
                      else (initial_metadata y m, False, s1))
            else (initial_metadata y m\<lparr>has_text := True, text_source := text_url v\<rparr>, True, s))
      else (initial_metadata y m, False, s))"

definition gpu_fall_back_to_scan ::
  "env \<Rightarrow> int \<Rightarrow> string \<Rightarrow> versions \<Rightarrow> month_metadata \<Rightarrow> bool \<Rightarrow> manager
   \<Rightarrow> month_metadata \<times> manager" where
  "gpu_fall_back_to_scan E y m v mm text_downloaded s =
     (if \<not> text_downloaded \<and> truthy (scan_url v)
      then (case gpu_download_scan_images E (the (scan_url v)) (scan_dir y m) s of
              (success, s1) \<Rightarrow>
                if success then (mm\<lparr>has_scan := True, scan_source := scan_url v\<rparr>, s1)
                else (mm, s1))
      else (mm, s))"

definition gpu_process_month ::
  "env \<Rightarrow> int \<Rightarrow> string \<Rightarrow> versions \<Rightarrow> metadata \<times> manager \<Rightarrow> metadata \<times> manager" where
  "gpu_process_month E y m v st =
     (case st of (md, s) \<Rightarrow>
        (case gpu_try_text E y m v s of
           (mm, text_downloaded, s1) \<Rightarrow>
             (case gpu_fall_back_to_scan E y m v mm text_downloaded s1 of
                (mm', s2) \<Rightarrow>
                  (set_month y m mm' md, save_metadata E (set_month y m mm' md) s2))))"

section \<open>final_scrapping.py\<close>

definition DELAY_AFTER_REQUESTS :: nat where
  "DELAY_AFTER_REQUESTS = 3"

definition DELAY_SECONDS :: rat where
  "DELAY_SECONDS = 10"

record script = world +
  request_counter :: nat

definition final_make_request :: "server \<Rightarrow> string \<Rightarrow> script \<Rightarrow> response option \<times> script" where
  "final_make_request srv url s =
     (let s1 = s\<lparr>request_counter := request_counter s + 1\<rparr>;
          s2 = (if request_counter s1 mod DELAY_AFTER_REQUESTS = 0 then sleep DELAY_SECONDS s1
                else s1)
      in case http_get srv url s2 of
           (Raised, s3) \<Rightarrow> (None, s3)
         | (Responded r, s3) \<Rightarrow> if status_code r \<noteq> 200 then (None, s3) else (Some r, s3))"

text \<open>
  \<open>re.search(r'(.*/v\d+)', url)\<close>: the dot stops at a newline, so the match lies in the
  first line that has a \<open>/v\<close> followed by a digit, starts where that line starts and,
  the star being greedy, ends after the digits of the last such place in the line.
\<close>

fun line_match :: "string \<Rightarrow> string option" where
  "line_match [] = None"
| "line_match (c # cs) =
     (case line_match cs of
        Some m \<Rightarrow> Some (c # m)
      | None \<Rightarrow>
          if c = CHR ''/'' \<and> (case cs of v # d # rest \<Rightarrow> v = CHR ''v'' \<and> is_digit d | _ \<Rightarrow> False)
          then Some (c # CHR ''v'' # takeWhile is_digit (tl cs))
          else None)"

fun split_lines :: "string \<Rightarrow> string \<Rightarrow> string list" where
  "split_lines cur [] = [cur]"
| "split_lines cur (c # cs) =
     (if c = newline then cur # split_lines [] cs else split_lines (cur @ [c]) cs)"

fun first_some :: "'a option list \<Rightarrow> 'a option" where
  "first_some [] = None"
| "first_some (None # xs) = first_some xs"
| "first_some (Some x # xs) = Some x"

definition version_base :: "string \<Rightarrow> string option" where
  "version_base url = first_some (map line_match (split_lines [] url))"

definition final_get_pagination_links :: "string \<Rightarrow> int \<Rightarrow> string list" where
  "final_get_pagination_links url max_pages =
     (case version_base url of
        None \<Rightarrow> [url]
      | Some base_url \<Rightarrow> url # map (\<lambda>page. base_url @ ''.'' @ str_int page) [2..max_pages])"

definition final_selectors :: "selector list" where
  "final_selectors =
     [ById ''div'' ''contentArtcile'', ByClass ''div'' ''article-content'',
      ByClass ''div'' ''content'', ByTag ''article'', ByTag ''main'']"

text \<open>The loop over \<open>enumerate(page_urls)\<close>, from index \<open>i\<close> on.\<close>

fun final_text_pages ::
  "server \<Rightarrow> nat \<Rightarrow> string list \<Rightarrow> string \<times> bool \<Rightarrow> script \<Rightarrow> (string \<times> bool) \<times> script" where
  "final_text_pages srv i [] acc s = (acc, s)"
| "final_text_pages srv i (page_url # rest) (all_text, content_found) s =
     (case final_make_request srv page_url s of
        (None, s1) \<Rightarrow> final_text_pages srv (i + 1) rest (all_text, content_found) s1
      | (Some r, s1) \<Rightarrow>
          (case extract_content final_selectors (soup r) of
             None \<Rightarrow> final_text_pages srv (i + 1) rest (all_text, content_found) s1
           | Some c \<Rightarrow>
               final_text_pages srv (i + 1) rest
                 (all_text @ page_marker (str_nat (i + 1)) @ clean_text c, True) s1))"

definition final_download_text_content ::
  "env \<Rightarrow> string \<Rightarrow> string \<Rightarrow> script \<Rightarrow> bool \<times> script" where
  "final_download_text_content E url output_file s =
     (case final_text_pages (server E) 0 (final_get_pagination_links url 3) ([], False) s of
        ((all_text, content_found), s1) \<Rightarrow>
          if \<not> content_found then (False, s1)
          else (True, write_file output_file [all_text] s1))"

definition is_large_image :: "node \<Rightarrow> bool" where
  "is_large_image img =
     (case (get_attr img ''width'', get_attr img ''height'') of
        (Some width, Some height) \<Rightarrow>
          (case px_int width of
             None \<Rightarrow> True
           | Some w \<Rightarrow> (case px_int height of
                         None \<Rightarrow> True
                       | Some h \<Rightarrow> \<not> (w < 300 \<or> h < 300)))
      | _ \<Rightarrow> True)"

text \<open>The images of a page, from index \<open>i\<close> on; the result counts the files saved.\<close>

fun final_page_images ::
  "env \<Rightarrow> string \<Rightarrow> nat \<Rightarrow> string \<Rightarrow> nat \<Rightarrow> node list \<Rightarrow> nat \<Rightarrow> script \<Rightarrow> nat \<times> script" where
  "final_page_images E page_url page_index output_dir i [] page_downloaded s = (page_downloaded, s)"
| "final_page_images E page_url page_index output_dir i (img # imgs) page_downloaded s =
     (case get_attr img ''src'' of
        None \<Rightarrow> final_page_images E page_url page_index output_dir (i + 1) imgs page_downloaded s
      | Some src \<Rightarrow>
          if denylisted src \<or> \<not> is_large_image img
          then final_page_images E page_url page_index output_dir (i + 1) imgs page_downloaded s
          else (case final_make_request (server E) (urljoin E page_url src) s of
                  (None, s1) \<Rightarrow>
                    final_page_images E page_url page_index output_dir (i + 1) imgs page_downloaded s1
                | (Some r, s1) \<Rightarrow>
                    final_page_images E page_url page_index output_dir (i + 1) imgs
                      (page_downloaded + 1)
                      (write_file
                         (path_join output_dir
                            (''page_'' @ zero_pad 3 (page_index + 1) @ ''img'' @ zero_pad 3 (i + 1)
                             @ ''.'' @ extension r))
                         [content r] s1)))"

definition frame_image_file :: "string \<Rightarrow> nat \<Rightarrow> nat \<Rightarrow> nat \<Rightarrow> string" where
  "frame_image_file output_dir page_index j k =
     path_join output_dir
       (''page_'' @ zero_pad 3 (page_index + 1) @ ''frame'' @ zero_pad 2 (j + 1)
        @ ''img'' @ zero_pad 2 (k + 1) @ ''.jpg'')"

text \<open>The images of one frame, from index \<open>k\<close> on.\<close>

fun final_frame_images ::
  "env \<Rightarrow> string \<Rightarrow> nat \<Rightarrow> nat \<Rightarrow> string \<Rightarrow> nat \<Rightarrow> node list \<Rightarrow> nat \<Rightarrow> script \<Rightarrow> nat \<times> script" where
  "final_frame_images E frame_url page_index j output_dir k [] n s = (n, s)"
| "final_frame_images E frame_url page_index j output_dir k (img # imgs) n s =
     (case get_attr img ''src'' of
        None \<Rightarrow> final_frame_images E frame_url page_index j output_dir (k + 1) imgs n s
      | Some src \<Rightarrow>
          (case final_make_request (server E) (urljoin E frame_url src) s of
             (None, s1) \<Rightarrow> final_frame_images E frame_url page_index j output_dir (k + 1) imgs n s1
           | (Some r, s1) \<Rightarrow>
               final_frame_images E frame_url page_index j output_dir (k + 1) imgs (n + 1)
                 (write_file (frame_image_file output_dir page_index j k) [content r] s1)))"

text \<open>The frames of a page, from index \<open>j\<close> on.\<close>

fun final_frames ::
  "env \<Rightarrow> string \<Rightarrow> nat \<Rightarrow> string \<Rightarrow> nat \<Rightarrow> node list \<Rightarrow> nat \<Rightarrow> script \<Rightarrow> nat \<times> script" where
  "final_frames E page_url page_index output_dir j [] n s = (n, s)"
| "final_frames E page_url page_index output_dir j (frame # frames) n s =
     (case get_attr frame ''src'' of
        None \<Rightarrow> final_frames E page_url page_index output_dir (j + 1) frames n s
      | Some src \<Rightarrow>
          (case final_make_request (server E) (urljoin E page_url src) s of
             (None, s1) \<Rightarrow> final_frames E page_url page_index output_dir (j + 1) frames n s1
           | (Some r, s1) \<Rightarrow>
               (case final_frame_images E (urljoin E page_url src) page_index j output_dir 0
                       (find_all (soup r) [''img'']) n s1 of
                  (n', s2) \<Rightarrow> final_frames E page_url page_index output_dir (j + 1) frames n' s2)))"

text \<open>One page of the scan job; \<open>downloaded\<close> is \<open>total_downloaded\<close> so far.\<close>

definition final_scan_page ::
  "env \<Rightarrow> string \<Rightarrow> nat \<Rightarrow> string \<Rightarrow> nat \<Rightarrow> script \<Rightarrow> nat \<times> script" where
  "final_scan_page E page_url page_index output_dir downloaded s =
     (case final_make_request (server E) page_url s of
        (None, s1) \<Rightarrow> (downloaded, s1)
      | (Some r, s1) \<Rightarrow>
          (case final_page_images E page_url page_index output_dir 0
                  (find_all (soup r) [''img'']) 0 s1 of
             (page_downloaded, s2) \<Rightarrow>
               if page_downloaded = 0
               then final_frames E page_url page_index output_dir 0
                      (find_all (soup r) [''frame'', ''iframe'']) (downloaded + page_downloaded) s2
               else (downloaded + page_downloaded, s2)))"

fun final_scan_pages ::
  "env \<Rightarrow> string \<Rightarrow> nat \<Rightarrow> string list \<Rightarrow> nat \<Rightarrow> script \<Rightarrow> nat \<times> script" where
  "final_scan_pages E output_dir page_index [] downloaded s = (downloaded, s)"
| "final_scan_pages E output_dir page_index (page_url # rest) downloaded s =
     (case final_scan_page E page_url page_index output_dir downloaded s of
        (downloaded', s1) \<Rightarrow> final_scan_pages E output_dir (page_index + 1) rest downloaded' s1)"

definition final_download_scan_images ::
  "env \<Rightarrow> string \<Rightarrow> string \<Rightarrow> script \<Rightarrow> bool \<times> script" where
  "final_download_scan_images E url output_dir s =
     (case final_scan_pages E output_dir 0 (final_get_pagination_links url 2) 0 s of
        (total_downloaded, s1) \<Rightarrow> (0 < total_downloaded, s1))"

text \<open>
  One round of the loop over the months of a year in \<open>main\<close>: the text version is tried
  first, the scan version when no text was obtained, and the record is saved.
\<close>

definition final_try_text ::
  "env \<Rightarrow> int \<Rightarrow> string \<Rightarrow> versions \<Rightarrow> script \<Rightarrow> month_metadata \<times> bool \<times> script" where
  "final_try_text E y m v s =
     (if truthy (text_url v)
      then (if exists (text_file y m) s
            then (initial_metadata y m\<lparr>has_text := True, text_source := text_url v\<rparr>, True, s)
            else (case final_download_text_content E (the (text_url v)) (text_file y m) s of
                    (success, s1) \<Rightarrow>
                      if success
                      then (initial_metadata y m\<lparr>has_text := True, text_source := text_url v\<rparr>,
                            True, s1)
                      else (initial_metadata y m, False, s1)))
      else (initial_metadata y m, False, s))"

definition final_fall_back_to_scan ::
  "env \<Rightarrow> int \<Rightarrow> string \<Rightarrow> versions \<Rightarrow> month_metadata \<Rightarrow> bool \<Rightarrow> script
   \<Rightarrow> month_metadata \<times> script" where
  "final_fall_back_to_scan E y m v mm text_downloaded s =
     (if \<not> text_downloaded \<and> truthy (scan_url v)
      then (case final_download_scan_images E (the (scan_url v)) (scan_dir y m) s of
              (success, s1) \<Rightarrow>
                if success then (mm\<lparr>has_scan := True, scan_source := scan_url v\<rparr>, s1)
                else (mm, s1))
      else (mm, s))"

definition final_process_month ::
  "env \<Rightarrow> int \<Rightarrow> string \<Rightarrow> versions \<Rightarrow> metadata \<times> script \<Rightarrow> metadata \<times> script" where
  "final_process_month E y m v st =
     (case st of (md, s) \<Rightarrow>
        (case final_try_text E y m v s of
           (mm, text_downloaded, s1) \<Rightarrow>
             (case final_fall_back_to_scan E y m v mm text_downloaded s1 of
                (mm', s2) \<Rightarrow>
                  (set_month y m mm' md, save_metadata E (set_month y m mm' md) s2))))"

section \<open>Notions used in the statements\<close>

text \<open>\<open>RequestManager.__init__\<close> at time \<open>now\<close>, with nothing logged and no files.\<close>

definition RequestManager_init :: "rat \<Rightarrow> manager" where
  "RequestManager_init now =
     \<lparr>log = [], clock = now, files = Map.empty,
      last_request_time = 0, request_count = 0, session_start = now, sessions = 0\<rparr>"

text \<open>An answer that is neither a success nor a rate limit, or no answer at all.\<close>

definition fails :: "outcome \<Rightarrow> bool" where
  "fails out =
     (case out of Raised \<Rightarrow> True | Responded r \<Rightarrow> status_code r \<noteq> 200 \<and> status_code r \<noteq> 429)"

text \<open>A 429 answer whose \<open>Retry-After\<close> reads as \<open>n\<close> seconds.\<close>

definition rate_limited :: "int \<Rightarrow> outcome \<Rightarrow> bool" where
  "rate_limited n out =
     (case out of Raised \<Rightarrow> False | Responded r \<Rightarrow> status_code r = 429 \<and> retry_after r = Some n)"

text \<open>
  What the retry loop logs in \<open>k\<close> attempts that are all answered with a rate limit,
  when \<open>wait h\<close> is the number of seconds the answer to the request after the requests
  \<open>h\<close> names.
\<close>

fun rate_limit_events :: "(string list \<Rightarrow> int) \<Rightarrow> string \<Rightarrow> string list \<Rightarrow> nat \<Rightarrow> event list" where
  "rate_limit_events wait url h 0 = []"
| "rate_limit_events wait url h (Suc k) =
     Get url # Sleep (of_int (wait h)) # rate_limit_events wait url (h @ [url]) k"

text \<open>What the retry loop logs when every attempt of the list fails.\<close>

definition backoff :: "string \<Rightarrow> nat list \<Rightarrow> event list" where
  "backoff url as = concat (map (\<lambda>attempt. [Get url, Sleep (2 ^ attempt)]) as)"

text \<open>
  The world when the save of the record \<open>md\<close> is cut short after \<open>k\<close> chunks: the file
  has been opened for writing and the first \<open>k\<close> chunks of the dump are in it.
\<close>

definition interrupted_save :: "env \<Rightarrow> metadata \<Rightarrow> nat \<Rightarrow> 'a world_scheme \<Rightarrow> 'a world_scheme" where
  "interrupted_save E md k w =
     w\<lparr>files := write_upto k metadata_file (json_chunks E md) (files w)\<rparr>"



subsection \<open>Example inputs\<close>

definition plain_response :: "int \<Rightarrow> (string \<times> string) list \<Rightarrow> response" where
  "plain_response code hs =
     \<lparr>status_code = code, headers = hs, soup = Elem ''[document]'' [] [], content = []\<rparr>"

definition always :: "response \<Rightarrow> server" where
  "always r = (\<lambda>h u. Responded r)"

text \<open>
  A server that always answers 429: first without \<open>Retry-After\<close>, then with one of 5
  seconds, then with one of 7 seconds.
\<close>


definition patient_server :: server where
  "patient_server h u =
     (if length h = 0 then Responded (plain_response 429 [])
      else if length h = 1 then Responded (plain_response 429 [(''Retry-After'', ''5'')])
      else Responded (plain_response 429 [(''retry-after'', '' 7 '')]))"

definition patient_wait :: "string list \<Rightarrow> int" where
  "patient_wait h = (if length h = 0 then 30 else if length h = 1 then 5 else 7)"

text \<open>
  A server that answers 429 three times, with a \<open>Retry-After\<close> that is no number, one
  of 5 seconds and none, and 200 from the fourth request on.
\<close>

definition busy_server :: server where
  "busy_server h u =
     (if length h = 0 then Responded (plain_response 429 [(''Retry-After'', ''soon'')])
      else if length h = 1 then Responded (plain_response 429 [(''Retry-After'', ''5'')])
      else if length h = 2 then Responded (plain_response 429 [])
      else Responded (plain_response 200 []))"

definition document :: "node list \<Rightarrow> node" where
  "document body = Elem ''[document]'' [] [Elem ''html'' [] [Elem ''body'' [] body]]"

definition page :: "node list \<Rightarrow> response" where
  "page body = \<lparr>status_code = 200, headers = [], soup = document body, content = []\<rparr>"

definition not_found :: response where
  "not_found = plain_response 404 []"

text \<open>The state of \<open>final_scrapping.py\<close> when it starts: nothing requested, no files.\<close>

definition script_init :: script where
  "script_init = \<lparr>log = [], clock = 0, files = Map.empty, request_counter = 0\<rparr>"

text \<open>
  An environment for the examples: every reference in a page is an absolute address,
  which \<open>urljoin\<close> returns as it is.
\<close>

definition example_env :: "server \<Rightarrow> (nat \<Rightarrow> nat list) \<Rightarrow> env" where
  "example_env srv sched =
     \<lparr>server = srv, urljoin = (\<lambda>base ref. ref),
      md5_hexdigest = (\<lambda>u. ''d41d8cd98f00b204e9800998ecf8427e''),
      json_chunks = (\<lambda>md. [''{'', ''}'']), schedule = sched\<rparr>"

definition in_order :: "nat \<Rightarrow> nat list" where
  "in_order n = [0..<n]"

text \<open>Of three tasks the third finishes first, then the first, then the second.\<close>

definition third_first :: "nat \<Rightarrow> nat list" where
  "third_first n = (if n = 3 then [2, 0, 1] else [0..<n])"

definition article :: "char \<Rightarrow> node" where
  "article c = Elem ''article'' [] [Text (replicate 101 c)]"

text \<open>An issue of three pages; page 1 carries the pagination marker.\<close>

definition three_pages :: server where
  "three_pages h u =
     (if u = ''http://x/v1.1''
      then Responded (page [article (CHR ''a''),
             Elem ''div'' [(''class'', ''pagination'')]
               [Elem ''a'' [] [Text ''1''], Elem ''a'' [] [Text ''2''],
                Elem ''a'' [] [Text ''3'']]])
      else if u = ''http://x/v1.2'' then Responded (page [article (CHR ''b'')])
      else if u = ''http://x/v1.3'' then Responded (page [article (CHR ''c'')])
      else Responded not_found)"

definition long_block :: node where
  "long_block = Elem ''div'' [] [Text (replicate 600 (CHR ''x''))]"

text \<open>
  Two pages with a short navigation element that the last selector of the script
  matches, and one block of 600 characters.
\<close>

definition short_main_page :: node where
  "short_main_page = document [Elem ''main'' [] [Text ''Menu''], long_block]"

definition short_entry_page :: node where
  "short_entry_page =
     document [Elem ''div'' [(''class'', ''entry-content'')] [Text ''Menu''], long_block]"

text \<open>An issue whose only page holds an empty \<open>main\<close> element.\<close>

definition empty_main :: server where
  "empty_main h u =
     (if u = ''http://x/v1'' then Responded (page [Elem ''main'' [] []])
      else Responded not_found)"

definition january :: versions where
  "january = \<lparr>text_url = Some ''http://x/v1'', scan_url = Some ''http://x/s1''\<rparr>"

text \<open>A scan page with one image that declares no size.\<close>

definition bare_img :: node where
  "bare_img = Elem ''img'' [(''src'', ''http://x/scan001.jpg'')] []"

definition jpeg :: response where
  "jpeg = \<lparr>status_code = 200, headers = [(''Content-Type'', ''image/jpeg'')],
           soup = Text [], content = ''JFIF''\<rparr>"

definition bare_image :: server where
  "bare_image h u =
     (if u = ''http://x/s1'' then Responded (page [bare_img])
      else if u = ''http://x/scan001.jpg'' then Responded jpeg
      else Responded not_found)"

text \<open>An image that is narrow and whose height is no number.\<close>

definition narrow_img :: node where
  "narrow_img =
     Elem ''img'' [(''src'', ''http://x/a.jpg''), (''width'', ''200''), (''height'', ''tall'')] []"



text \<open>
  A scan page that shows its image only inside a frame; the image is a small logo,
  served as PNG.
\<close>

definition png :: response where
  "png = \<lparr>status_code = 200, headers = [(''Content-Type'', ''image/png'')],
          soup = Text [], content = ''PNG''\<rparr>"

definition tiny_logo :: node where
  "tiny_logo =
     Elem ''img'' [(''src'', ''http://x/logo.png''), (''width'', ''10''), (''height'', ''10'')] []"

definition framed :: server where
  "framed h u =
     (if u = ''http://x/s1'' then Responded (page [Elem ''iframe'' [(''src'', ''http://x/f1'')] []])
      else if u = ''http://x/f1'' then Responded (page [tiny_logo])
      else if u = ''http://x/logo.png'' then Responded png
      else Responded not_found)"


section \<open>The retry loop\<close>

lemma requested_append: "requested (xs @ ys) = requested xs @ requested ys"
  by (induction xs rule: requested.induct) auto

lemma slept_append: "slept (xs @ ys) = slept xs @ slept ys"
  by (induction xs rule: slept.induct) auto

lemma log_rotate_if_due: "log (rotate_if_due s) = log s"
  by (simp add: rotate_if_due_def rotate_session_def)

lemma gather_skip: "\<not> truthy r \<Longrightarrow> gather (r # rest) acc = gather rest acc"
  by (cases acc) simp

lemma attempts_fails:
  assumes "\<And>h. fails (srv h url)"
  shows "attempts srv url as s =
     (None, s\<lparr>log := log s @ backoff url as,
               clock := clock s + sum_list (map (\<lambda>a. 2 ^ a) as)\<rparr>)"
proof (induction as arbitrary: s)
  case Nil
  then show ?case by (simp add: backoff_def)
next
  case (Cons a as)
  have f: "fails (srv (requested (log s)) url)" by (rule assms)
  show ?case
  proof (cases "srv (requested (log s)) url")
    case Raised
    then show ?thesis
      by (simp add: http_get_def Cons.IH sleep_def backoff_def add.assoc)
  next
    case (Responded r)
    with f have "status_code r \<noteq> 200" "status_code r \<noteq> 429" by (simp_all add: fails_def)
    with Responded show ?thesis
      by (simp add: http_get_def Cons.IH sleep_def backoff_def add.assoc)
  qed
qed

lemma attempts_rate_limited_step:
  assumes "srv (requested (log s)) url = Responded r" and "status_code r = 429"
    and "retry_after r = Some n" and "0 \<le> n" and "n \<le> 9223372036"
  shows "attempts srv url (attempt # rest) s
         = attempts srv url rest (sleep (of_int n) (snd (http_get srv url s)))"
  using assms by (simp add: http_get_def sleep_raises_def)

lemma attempts_rate_limited:
  assumes "\<And>h. rate_limited (wait h) (srv h url) \<and> 0 \<le> wait h \<and> wait h \<le> 9223372036"
  shows "attempts srv url as s =
     (None, s\<lparr>log := log s @ rate_limit_events wait url (requested (log s)) (length as),
               clock := clock s
                        + sum_list (slept (rate_limit_events wait url (requested (log s))
                                             (length as)))\<rparr>)"
proof (induction as arbitrary: s)
  case Nil
  then show ?case by simp
next
  case (Cons a as)
  have w: "rate_limited (wait (requested (log s))) (srv (requested (log s)) url)"
    "0 \<le> wait (requested (log s))" "wait (requested (log s)) \<le> 9223372036"
    using assms by blast+
  from w(1) obtain r where r: "srv (requested (log s)) url = Responded r"
    "status_code r = 429" "retry_after r = Some (wait (requested (log s)))"
    by (auto simp: rate_limited_def split: outcome.splits)
  show ?case
    unfolding attempts_rate_limited_step [of srv s url, OF r w(2,3)] Cons.IH
    by (simp add: http_get_def sleep_def requested_append add.assoc)
qed

lemma rate_limit_events_3:
  "rate_limit_events wait url h MAX_RETRIES
   = [Get url, Sleep (of_int (wait h)), Get url, Sleep (of_int (wait (h @ [url]))),
      Get url, Sleep (of_int (wait (h @ [url, url])))]"
  by (simp add: MAX_RETRIES_def numeral_3_eq_3)

lemma status_code_plain_response: "status_code (plain_response code hs) = code"
  by (simp add: plain_response_def)

lemma retry_after_examples:
  "retry_after (plain_response 429 [(''Retry-After'', ''soon'')]) = None"
  "retry_after (plain_response 429 [(''Retry-After'', ''5'')]) = Some 5"
  "retry_after (plain_response 429 [(''retry-after'', '' 7 '')]) = Some 7"
  "retry_after (plain_response 429 []) = Some 30"
  by code_simp+

text \<open>
  Claim C5.  When every request for a URL fails with a status other than 200 and 429
  or with an exception, \<open>RequestManager.make_request\<close> returns \<open>None\<close> after exactly
  \<open>MAX_RETRIES\<close> requests for that URL; after attempt number \<open>attempt\<close> it sleeps
  \<open>2 ^ attempt\<close> seconds, so the sleeps are 1, 2 and 4 seconds and never decrease (the
  last one follows the last attempt).  The caller \<open>process_text_page\<close> returns \<open>None\<close>
  for the page, and the loop that assembles the text passes over it without changing
  the text gathered or the flag that says whether content was found.
\<close>

theorem retries_exhausted:
  assumes "\<And>h. fails (srv h url)"
  shows "fst (RequestManager_make_request srv url s) = None
    \<and> log (snd (RequestManager_make_request srv url s))
        = log (throttle s) @ backoff url [0..<MAX_RETRIES]
    \<and> requested (backoff url [0..<MAX_RETRIES]) = replicate MAX_RETRIES url
    \<and> slept (backoff url [0..<MAX_RETRIES]) = map (\<lambda>attempt. 2 ^ attempt) [0..<MAX_RETRIES]
    \<and> slept (backoff url [0..<MAX_RETRIES]) = [1, 2, 4]
    \<and> sorted (slept (backoff url [0..<MAX_RETRIES]))
    \<and> fst (process_text_page srv url s) = None
    \<and> gather (fst (process_text_page srv url s) # rest) acc = gather rest acc"
proof -
  have a: "RequestManager_make_request srv url s =
      (None, (rotate_if_due (throttle s))
         \<lparr>log := log (rotate_if_due (throttle s)) @ backoff url [0..<MAX_RETRIES],
          clock := clock (rotate_if_due (throttle s))
                   + sum_list (map (\<lambda>a. 2 ^ a) [0..<MAX_RETRIES])\<rparr>)"
    unfolding RequestManager_make_request_def using assms by (rule attempts_fails [of srv url])
  have u: "[0..<MAX_RETRIES] = [0, 1, 2]"
    by (simp add: MAX_RETRIES_def upt_rec)
  have p: "fst (process_text_page srv url s) = None"
    by (simp add: process_text_page_def a)
  have b: "backoff url [0..<MAX_RETRIES]
      = [Get url, Sleep 1, Get url, Sleep 2, Get url, Sleep 4]"
    by (simp add: u backoff_def)
  have r: "replicate MAX_RETRIES url = [url, url, url]"
    by (simp add: MAX_RETRIES_def numeral_3_eq_3)
  show ?thesis
    unfolding p b r by (simp add: a log_rotate_if_due gather_skip truthy_def u backoff_def)
qed

theorem retries_exhausted_witness:
  "fails (always (plain_response 500 []) [] ''http://x/v1.1'')
   \<and> fst (RequestManager_make_request (always (plain_response 500 [])) ''http://x/v1.1''
            (RequestManager_init 1000)) = None
   \<and> log (snd (RequestManager_make_request (always (plain_response 500 [])) ''http://x/v1.1''
                 (RequestManager_init 1000)))
       = [Get ''http://x/v1.1'', Sleep 1, Get ''http://x/v1.1'', Sleep 2,
          Get ''http://x/v1.1'', Sleep 4]"
proof -
  have h: "\<And>h. fails (always (plain_response 500 []) h ''http://x/v1.1'')"
    by (simp add: fails_def always_def plain_response_def)
  show ?thesis
    using h retries_exhausted [of "always (plain_response 500 [])" "''http://x/v1.1''"
        "RequestManager_init 1000", OF h]
    by (simp add: RequestManager_init_def throttle_def MIN_DELAY_def backoff_def
        MAX_RETRIES_def upt_rec Let_def)
qed

text \<open>
  Claim C2, as the specification states it, fails on the server \<open>busy_server\<close>: the
  first 429 carries a \<open>Retry-After\<close> that is no number and the client sleeps 1 second
  (\<open>2 ^ 0\<close>), not 30; and the three 429 answers use up the three attempts, so the call
  returns \<open>None\<close> and the fourth request, which would have been answered with 200, is
  never made.
\<close>

theorem rate_limit_counterexample:
  "fst (RequestManager_make_request busy_server ''http://x/v1.1'' (RequestManager_init 1000))
     = None
   \<and> log (snd (RequestManager_make_request busy_server ''http://x/v1.1''
                 (RequestManager_init 1000)))
       = [Get ''http://x/v1.1'', Sleep 1, Get ''http://x/v1.1'', Sleep 5,
          Get ''http://x/v1.1'', Sleep 30]"
  by (simp add: RequestManager_make_request_def MAX_RETRIES_def upt_rec RequestManager_init_def
      throttle_def rotate_if_due_def MIN_DELAY_def SESSION_DURATION_def SESSION_REQUESTS_def
      http_get_def sleep_def busy_server_def status_code_plain_response retry_after_examples
      sleep_raises_def Let_def)

text \<open>
  Claim C2, amended.  On a 429 answer whose \<open>Retry-After\<close> header is absent or an
  integer from 0 to 9223372036, the numbers of seconds \<open>time.sleep\<close> accepts, the client
  sleeps that many seconds, 30 when the header is absent, and goes on with the
  attempts that are left: the answer uses up one of the \<open>MAX_RETRIES\<close> attempts.  A URL
  that is answered with such a 429 every time is therefore requested exactly
  \<open>MAX_RETRIES\<close> times, each request followed by the sleep its answer names and none by
  a sleep of \<open>2 ^ attempt\<close>, and the call returns \<open>None\<close>.
\<close>

theorem rate_limit_takes_an_attempt:
  assumes "\<And>h. rate_limited (wait h) (srv h url) \<and> 0 \<le> wait h \<and> wait h \<le> 9223372036"
  shows "fst (RequestManager_make_request srv url s) = None
    \<and> log (snd (RequestManager_make_request srv url s))
        = log (throttle s)
          @ rate_limit_events wait url (requested (log (throttle s))) MAX_RETRIES
    \<and> requested (rate_limit_events wait url h MAX_RETRIES) = replicate MAX_RETRIES url
    \<and> slept (rate_limit_events wait url h MAX_RETRIES)
        = [of_int (wait h), of_int (wait (h @ [url])), of_int (wait (h @ [url, url]))]
    \<and> (header_get (headers r) ''Retry-After'' = None \<longrightarrow> retry_after r = Some 30)
    \<and> (srv' (requested (log s')) url' = Responded r' \<and> status_code r' = 429
         \<and> retry_after r' = Some n \<and> 0 \<le> n \<and> n \<le> 9223372036 \<longrightarrow>
        attempts srv' url' (attempt # rest) s'
        = attempts srv' url' rest (sleep (of_int n) (snd (http_get srv' url' s'))))"
proof -
  have a: "RequestManager_make_request srv url s =
      (None, (rotate_if_due (throttle s))
         \<lparr>log := log (rotate_if_due (throttle s))
                 @ rate_limit_events wait url (requested (log (rotate_if_due (throttle s))))
                     (length [0..<MAX_RETRIES]),
          clock := clock (rotate_if_due (throttle s))
                   + sum_list (slept (rate_limit_events wait url
                        (requested (log (rotate_if_due (throttle s))))
                        (length [0..<MAX_RETRIES])))\<rparr>)"
    unfolding RequestManager_make_request_def
    using assms by (rule attempts_rate_limited [of wait srv url])
  have one: "fst (RequestManager_make_request srv url s) = None"
    by (simp add: a)
  have two: "log (snd (RequestManager_make_request srv url s))
        = log (throttle s)
          @ rate_limit_events wait url (requested (log (throttle s))) MAX_RETRIES"
    by (simp add: a log_rotate_if_due)
  have three: "requested (rate_limit_events wait url h MAX_RETRIES) = replicate MAX_RETRIES url"
    unfolding rate_limit_events_3 by (simp add: MAX_RETRIES_def numeral_3_eq_3)
  have four: "slept (rate_limit_events wait url h MAX_RETRIES)
        = [of_int (wait h), of_int (wait (h @ [url])), of_int (wait (h @ [url, url]))]"
    unfolding rate_limit_events_3 by simp
  have five: "header_get (headers r) ''Retry-After'' = None \<longrightarrow> retry_after r = Some 30"
    by (simp add: retry_after_def)
  have six: "srv' (requested (log s')) url' = Responded r' \<and> status_code r' = 429
         \<and> retry_after r' = Some n \<and> 0 \<le> n \<and> n \<le> 9223372036 \<longrightarrow>
        attempts srv' url' (attempt # rest) s'
        = attempts srv' url' rest (sleep (of_int n) (snd (http_get srv' url' s')))"
    using attempts_rate_limited_step [of srv' s' url' r' n attempt rest] by blast
  show ?thesis
    by (intro conjI) (rule one, rule two, rule three, rule four, rule five, rule six)
qed

theorem rate_limit_takes_an_attempt_witness:
  "rate_limited (patient_wait []) (patient_server [] ''http://x/v1.1'')
   \<and> fst (RequestManager_make_request patient_server ''http://x/v1.1''
            (RequestManager_init 1000)) = None
   \<and> log (snd (RequestManager_make_request patient_server ''http://x/v1.1''
                 (RequestManager_init 1000)))
       = [Get ''http://x/v1.1'', Sleep 30, Get ''http://x/v1.1'', Sleep 5,
          Get ''http://x/v1.1'', Sleep 7]"
proof -
  have h: "\<And>h. rate_limited (patient_wait h) (patient_server h ''http://x/v1.1'')
      \<and> 0 \<le> patient_wait h \<and> patient_wait h \<le> 9223372036"
    by (simp add: rate_limited_def patient_server_def patient_wait_def
        status_code_plain_response retry_after_examples)
  have t: "log (throttle (RequestManager_init 1000)) = []"
    by (simp add: RequestManager_init_def throttle_def MIN_DELAY_def Let_def)
  have e: "rate_limit_events patient_wait ''http://x/v1.1'' [] MAX_RETRIES
      = [Get ''http://x/v1.1'', Sleep 30, Get ''http://x/v1.1'', Sleep 5,
         Get ''http://x/v1.1'', Sleep 7]"
    unfolding rate_limit_events_3 by (simp add: patient_wait_def)
  show ?thesis
    using h [of "[]"]
      rate_limit_takes_an_attempt [of patient_wait patient_server "''http://x/v1.1''"
        "RequestManager_init 1000", OF h, THEN conjunct1]
      rate_limit_takes_an_attempt [of patient_wait patient_server "''http://x/v1.1''"
        "RequestManager_init 1000", OF h, THEN conjunct2, THEN conjunct1]
    by (simp add: t e)
qed

section \<open>Files\<close>

lemma fold_write_chunk:
  "fs p = Some old \<Longrightarrow> fold (write_chunk p) cs fs p = Some (old @ concat cs)"
  by (induction cs arbitrary: fs old) (simp_all add: write_chunk_def)


lemma write_upto_at: "write_upto k p chunks fs p = Some (concat (take k chunks))"
  by (simp add: write_upto_def open_w_def fold_write_chunk)


lemma files_write_file: "files (write_file p chunks w) p = Some (concat chunks)"
  by (simp add: write_file_def write_upto_at)


lemma log_write_file: "log (write_file p chunks w) = log w @ [Write p (concat chunks)]"
  by (simp add: write_file_def)


lemma log_save_metadata: "log (save_metadata E md w) = log w @ [Write metadata_file (concat (json_chunks E md))]"
  by (simp add: save_metadata_def write_file_def)


section \<open>Text assembly in gpu_optimised.py\<close>

lemma make_request_200:
  assumes "\<And>h. srv h url = Responded r" and "status_code r = 200"
  shows "fst (RequestManager_make_request srv url s) = Some r"
proof -
  have "[0..<MAX_RETRIES] = 0 # [1, 2]" by (simp add: MAX_RETRIES_def upt_rec)
  then show ?thesis
    by (simp add: RequestManager_make_request_def http_get_def assms)
qed

lemma process_text_page_200:
  assumes "\<And>h. srv h u = Responded r" and "status_code r = 200"
    and "extract_content gpu_selectors (soup r) = Some c"
  shows "fst (process_text_page srv u s) = Some (page_marker (url_page_num u) @ clean_text c)"
proof -
  have "fst (RequestManager_make_request srv u s) = Some r"
    using assms(1,2) by (rule make_request_200)
  then show ?thesis
    by (cases "RequestManager_make_request srv u s") (simp add: process_text_page_def assms(3))
qed

lemma run_text_pages_fst:
  "fst (run_text_pages srv (u # us) s)
   = fst (process_text_page srv u s) # fst (run_text_pages srv us (snd (process_text_page srv u s)))"
  by (simp split: prod.splits)

lemma gpu_pagination_fst:
  "fst (gpu_get_pagination_links srv url n s)
   = url # map (gpu_page_url url) [2..detected_pages (fst (RequestManager_make_request srv url s)) n]"
  by (simp add: gpu_get_pagination_links_def split: prod.splits)

lemma gpu_download_unfold:
  "gpu_download_text_content E url out s =
     (let p = gpu_get_pagination_links (server E) url 36 s;
          r = run_text_pages (server E) (completion_order (schedule E) (fst p)) (snd p);
          g = gather (fst r) ([], False)
      in if snd g then (True, write_file out [fst g] (snd r)) else (False, snd r))"
  by (simp add: gpu_download_text_content_def Let_def split: prod.splits)

lemma three_pages_extract_2: "extract_content gpu_selectors (soup (page [article (CHR ''b'')])) = Some (article (CHR ''b''))"
  by code_simp
lemma three_pages_extract_3: "extract_content gpu_selectors (soup (page [article (CHR ''c'')])) = Some (article (CHR ''c''))"
  by code_simp
lemma three_pages_extract_1: "extract_content gpu_selectors (soup (page [article (CHR ''a''),
             Elem ''div'' [(''class'', ''pagination'')]
               [Elem ''a'' [] [Text ''1''], Elem ''a'' [] [Text ''2''],
                Elem ''a'' [] [Text ''3'']]])) = Some (article (CHR ''a''))"
  by code_simp
lemma three_pages_detected: "detected_pages (Some (page [article (CHR ''a''),
             Elem ''div'' [(''class'', ''pagination'')]
               [Elem ''a'' [] [Text ''1''], Elem ''a'' [] [Text ''2''],
                Elem ''a'' [] [Text ''3'']]])) 36 = 3"
  by code_simp
lemma article_clean_text: "clean_text (article (CHR ''a'')) = replicate 101 (CHR ''a'')"
  "clean_text (article (CHR ''b'')) = replicate 101 (CHR ''b'')"
  "clean_text (article (CHR ''c'')) = replicate 101 (CHR ''c'')"
  by code_simp+
lemma three_pages_page_num: "url_page_num ''http://x/v1.1'' = ''1''" "url_page_num ''http://x/v1.2'' = ''2''" "url_page_num ''http://x/v1.3'' = ''3''"
  by code_simp+
lemma three_pages_page_url: "gpu_page_url ''http://x/v1.1'' 2 = ''http://x/v1.2''"
  "gpu_page_url ''http://x/v1.1'' 3 = ''http://x/v1.3''"
  by code_simp+
lemma third_first_order: "completion_order third_first [''http://x/v1.1'', ''http://x/v1.2'', ''http://x/v1.3''] = [''http://x/v1.3'', ''http://x/v1.1'', ''http://x/v1.2'']"
  by code_simp


text \<open>
  Claim C1 on \<open>gpu_optimised.py\<close>.  The issue \<open>three_pages\<close> has three pages, each
  with an article of 101 characters, and the tasks finish in the order 3, 1, 2.  The
  job succeeds and the file it writes holds the pages in that order, page 3 first:
  the loop over \<open>as_completed\<close> appends each page text as it arrives and nothing sorts
  them by page number.
\<close>

theorem text_in_completion_order:
  "fst (gpu_download_text_content (example_env three_pages third_first) ''http://x/v1.1''
          ''out.txt'' (RequestManager_init 1000))
   \<and> files (snd (gpu_download_text_content (example_env three_pages third_first)
                   ''http://x/v1.1'' ''out.txt'' (RequestManager_init 1000))) ''out.txt''
      = Some (page_marker ''3'' @ replicate 101 (CHR ''c'')
              @ page_marker ''1'' @ replicate 101 (CHR ''a'')
              @ page_marker ''2'' @ replicate 101 (CHR ''b''))"
proof -
  let ?p1 = "page [article (CHR ''a''),
             Elem ''div'' [(''class'', ''pagination'')]
               [Elem ''a'' [] [Text ''1''], Elem ''a'' [] [Text ''2''],
                Elem ''a'' [] [Text ''3'']]]"
  have s1: "\<And>h. three_pages h ''http://x/v1.1'' = Responded ?p1"
    and s2: "\<And>h. three_pages h ''http://x/v1.2'' = Responded (page [article (CHR ''b'')])"
    and s3: "\<And>h. three_pages h ''http://x/v1.3'' = Responded (page [article (CHR ''c'')])"
    by (simp_all add: three_pages_def)
  have ok: "\<And>b. status_code (page b) = 200" by (simp add: page_def)
  have links: "\<And>s. fst (gpu_get_pagination_links three_pages ''http://x/v1.1'' 36 s)
      = [''http://x/v1.1'', ''http://x/v1.2'', ''http://x/v1.3'']"
    by (simp add: gpu_pagination_fst make_request_200 [of three_pages "''http://x/v1.1''", OF s1 ok] three_pages_detected three_pages_page_url)
  have t1: "\<And>s. fst (process_text_page three_pages ''http://x/v1.1'' s)
      = Some (page_marker ''1'' @ replicate 101 (CHR ''a''))"
    by (simp add: process_text_page_200 [of three_pages "''http://x/v1.1''", OF s1 ok three_pages_extract_1] article_clean_text three_pages_page_num)
  have t2: "\<And>s. fst (process_text_page three_pages ''http://x/v1.2'' s)
      = Some (page_marker ''2'' @ replicate 101 (CHR ''b''))"
    by (simp add: process_text_page_200 [of three_pages "''http://x/v1.2''", OF s2 ok three_pages_extract_2] article_clean_text three_pages_page_num)
  have t3: "\<And>s. fst (process_text_page three_pages ''http://x/v1.3'' s)
      = Some (page_marker ''3'' @ replicate 101 (CHR ''c''))"
    by (simp add: process_text_page_200 [of three_pages "''http://x/v1.3''", OF s3 ok three_pages_extract_3] article_clean_text three_pages_page_num)
  have results: "\<And>s. fst (run_text_pages three_pages
        [''http://x/v1.3'', ''http://x/v1.1'', ''http://x/v1.2''] s)
      = [Some (page_marker ''3'' @ replicate 101 (CHR ''c'')),
         Some (page_marker ''1'' @ replicate 101 (CHR ''a'')),
         Some (page_marker ''2'' @ replicate 101 (CHR ''b''))]"
    unfolding run_text_pages_fst t1 t2 t3 by simp
  have m: "\<And>n t. truthy (Some (page_marker n @ t))"
    by (simp add: truthy_def page_marker_def)
  have g: "\<And>a b c. gather [Some (page_marker ''3'' @ c), Some (page_marker ''1'' @ a),
        Some (page_marker ''2'' @ b)] ([], False)
      = (page_marker ''3'' @ c @ page_marker ''1'' @ a @ page_marker ''2'' @ b, True)"
    by (simp add: m)
  have "gpu_download_text_content (example_env three_pages third_first) ''http://x/v1.1''
          ''out.txt'' (RequestManager_init 1000)
      = (True, write_file ''out.txt''
           [page_marker ''3'' @ replicate 101 (CHR ''c'')
            @ page_marker ''1'' @ replicate 101 (CHR ''a'')
            @ page_marker ''2'' @ replicate 101 (CHR ''b'')]
           (snd (run_text_pages three_pages
              [''http://x/v1.3'', ''http://x/v1.1'', ''http://x/v1.2'']
              (snd (gpu_get_pagination_links three_pages ''http://x/v1.1'' 36
                 (RequestManager_init 1000))))))"
    unfolding gpu_download_unfold Let_def example_env_def
    by (simp only: env.simps links third_first_order results g fst_conv snd_conv if_True)
  then show ?thesis
    by (simp only: fst_conv snd_conv files_write_file concat.simps append_Nil2 simp_thms)
qed

section \<open>Content extraction\<close>

lemma select_loop_first:
  "list_all (\<lambda>s. \<not> long_enough (select_one sp s)) pre \<Longrightarrow>
   long_enough (select_one sp sel) \<Longrightarrow>
   select_loop sp (pre @ sel # rest) c = select_one sp sel"
  by (induction pre arbitrary: c) (simp_all add: Let_def)

lemma select_loop_last:
  "list_all (\<lambda>s. \<not> long_enough (select_one sp s)) sels \<Longrightarrow> sels \<noteq> [] \<Longrightarrow>
   select_loop sp sels c = select_one sp (last sels)"
  by (induction sels arbitrary: c) (auto simp: Let_def)

text \<open>
  Claim C9.  On the two pages below no selector of the chain selects more than 100
  characters, and each page has one block of 600 characters, which the claim says is
  the content.  The scripts return the short element that their last selector matched
  (\<open>main\<close> in \<open>final_scrapping.py\<close>, \<open>div.entry-content\<close> in \<open>gpu_optimised.py\<close>):
  the loop variable still holds it after the loop, so the search for the largest block
  is not run.
\<close>

theorem last_selector_leaks:
  "extract_content final_selectors short_main_page = Some (Elem ''main'' [] [Text ''Menu''])
   \<and> extract_content gpu_selectors short_entry_page
       = Some (Elem ''div'' [(''class'', ''entry-content'')] [Text ''Menu''])
   \<and> list_all (\<lambda>sel. \<not> long_enough (select_one short_main_page sel)) final_selectors
   \<and> list_all (\<lambda>sel. \<not> long_enough (select_one short_entry_page sel)) gpu_selectors
   \<and> text_blocks short_main_page = [long_block]
   \<and> text_blocks short_entry_page = [long_block]"
  by code_simp


section \<open>The text job and the month loop of final_scrapping.py\<close>


lemma final_month_text_downloaded:
  assumes "truthy (text_url v)" and "\<not> exists (text_file y m) s"
    and "fst (final_download_text_content E (the (text_url v)) (text_file y m) s)"
  shows "final_process_month E y m v (md, s)
   = (set_month y m (initial_metadata y m\<lparr>has_text := True, text_source := text_url v\<rparr>) md,
      save_metadata E
        (set_month y m (initial_metadata y m\<lparr>has_text := True, text_source := text_url v\<rparr>) md)
        (snd (final_download_text_content E (the (text_url v)) (text_file y m) s)))"
proof (cases "final_download_text_content E (the (text_url v)) (text_file y m) s")
  case (Pair b s1)
  with assms show ?thesis by (simp add: final_process_month_def final_try_text_def final_fall_back_to_scan_def)
qed

lemma final_month_text_failed:
  assumes "truthy (text_url v)" and "\<not> exists (text_file y m) s"
    and "\<not> fst (final_download_text_content E (the (text_url v)) (text_file y m) s)"
    and "truthy (scan_url v)"
  shows "final_process_month E y m v (md, s)
   = (let r = final_download_scan_images E (the (scan_url v)) (scan_dir y m)
                (snd (final_download_text_content E (the (text_url v)) (text_file y m) s));
          mm = (if fst r then initial_metadata y m\<lparr>has_scan := True, scan_source := scan_url v\<rparr>
                else initial_metadata y m)
      in (set_month y m mm md, save_metadata E (set_month y m mm md) (snd r)))"
proof (cases "final_download_text_content E (the (text_url v)) (text_file y m) s")
  case (Pair b s1)
  show ?thesis
  proof (cases "final_download_scan_images E (the (scan_url v)) (scan_dir y m) s1")
    case (Pair c s2)
    with \<open>final_download_text_content E (the (text_url v)) (text_file y m) s = (b, s1)\<close> assms
    show ?thesis by (simp add: final_process_month_def final_try_text_def final_fall_back_to_scan_def Let_def)
  qed
qed

lemma requested_final_make_request:
  "requested (log (snd (final_make_request srv url s))) = requested (log s) @ [url]"
  by (simp add: final_make_request_def http_get_def sleep_def Let_def requested_append
      split: outcome.splits)

lemma final_make_request_static:
  assumes "\<And>h. srv h url = Responded r"
  shows "fst (final_make_request srv url s) = (if status_code r = 200 then Some r else None)"
  by (simp add: final_make_request_def http_get_def Let_def assms)

lemma final_text_pages_step:
  "final_text_pages srv i (u # rest) (all_text, found) s =
     (case fst (final_make_request srv u s) of
        None \<Rightarrow> final_text_pages srv (i + 1) rest (all_text, found) (snd (final_make_request srv u s))
      | Some r \<Rightarrow>
          (case extract_content final_selectors (soup r) of
             None \<Rightarrow>
               final_text_pages srv (i + 1) rest (all_text, found) (snd (final_make_request srv u s))
           | Some c \<Rightarrow>
               final_text_pages srv (i + 1) rest
                 (all_text @ page_marker (str_nat (i + 1)) @ clean_text c, True)
                 (snd (final_make_request srv u s))))"
  by (cases "final_make_request srv u s") (simp split: option.splits)

lemma requested_final_text_pages:
  "requested (log (snd (final_text_pages srv i us acc s))) = requested (log s) @ us"
proof (induction us arbitrary: i acc s)
  case Nil
  then show ?case by simp
next
  case (Cons u us)
  obtain t f where acc: "acc = (t, f)" by (cases acc)
  show ?case
    unfolding acc final_text_pages_step
    by (simp add: Cons.IH requested_final_make_request split: option.splits)
qed

lemma final_download_unfold:
  "final_download_text_content E url out s =
     (let r = final_text_pages (server E) 0 (final_get_pagination_links url 3) ([], False) s
      in if snd (fst r) then (True, write_file out [fst (fst r)] (snd r)) else (False, snd r))"
  by (simp add: final_download_text_content_def Let_def split: prod.splits)

lemma empty_main_links:
  "final_get_pagination_links ''http://x/v1'' 3 = [''http://x/v1'', ''http://x/v1.2'', ''http://x/v1.3'']"
  by code_simp

lemma empty_main_extract:
  "extract_content final_selectors (soup (page [Elem ''main'' [] []])) = Some (Elem ''main'' [] [])"
  by code_simp

lemma str_nat_1: "str_nat (Suc 0) = ''1''"
  by code_simp

lemma empty_main_pages:
  "fst (final_text_pages empty_main 0 [''http://x/v1'', ''http://x/v1.2'', ''http://x/v1.3'']
          ([], False) s)
   = (page_marker ''1'' @ clean_text (Elem ''main'' [] []), True)"
proof -
  have s1: "\<And>h. empty_main h ''http://x/v1'' = Responded (page [Elem ''main'' [] []])"
    and s2: "\<And>h. empty_main h ''http://x/v1.2'' = Responded not_found"
    and s3: "\<And>h. empty_main h ''http://x/v1.3'' = Responded not_found"
    by (simp_all add: empty_main_def)
  have c: "status_code (page [Elem ''main'' [] []]) = 200" "status_code not_found = 404"
    by (simp_all add: page_def not_found_def plain_response_def)
  show ?thesis
    unfolding final_text_pages_step
      final_make_request_static [of empty_main "''http://x/v1''", OF s1]
      final_make_request_static [of empty_main "''http://x/v1.2''", OF s2]
      final_make_request_static [of empty_main "''http://x/v1.3''", OF s3]
    by (simp add: c empty_main_extract str_nat_1)
qed

lemma empty_main_download:
  "fst (final_download_text_content (example_env empty_main in_order) ''http://x/v1'' out s)"
  "files (snd (final_download_text_content (example_env empty_main in_order) ''http://x/v1''
          out s)) out = Some (page_marker ''1'' @ clean_text (Elem ''main'' [] []))"
  "requested (log (snd (final_download_text_content (example_env empty_main in_order)
          ''http://x/v1'' out s)))
   = requested (log s) @ [''http://x/v1'', ''http://x/v1.2'', ''http://x/v1.3'']"
  unfolding final_download_unfold Let_def empty_main_links
  by (simp_all add: example_env_def empty_main_pages files_write_file log_write_file
      requested_append requested_final_text_pages del: final_text_pages.simps)


lemma files_final_make_request: "files (snd (final_make_request srv u s)) = files s"
  by (simp add: final_make_request_def http_get_def sleep_def Let_def split: outcome.splits)

lemma files_final_text_pages: "files (snd (final_text_pages srv i us acc s)) = files s"
proof (induction us arbitrary: i acc s)
  case Nil
  then show ?case by simp
next
  case (Cons u us)
  obtain t f where acc: "acc = (t, f)" by (cases acc)
  show ?case
    unfolding acc final_text_pages_step
    by (simp add: Cons.IH files_final_make_request split: option.splits)
qed

lemma final_text_job_failure_writes_nothing:
  "\<not> fst (final_download_text_content E url out s) \<Longrightarrow>
   files (snd (final_download_text_content E url out s)) = files s"
  unfolding final_download_unfold Let_def
  by (simp add: files_final_text_pages split: if_splits)

lemma final_text_pages_append:
  "final_text_pages srv i (us @ vs) acc s
   = final_text_pages srv (i + length us) vs
       (fst (final_text_pages srv i us acc s)) (snd (final_text_pages srv i us acc s))"
proof (induction us arbitrary: i acc s)
  case Nil
  then show ?case by simp
next
  case (Cons u us)
  obtain t f where acc: "acc = (t, f)" by (cases acc)
  show ?case
    unfolding acc append_Cons final_text_pages_step
    by (simp add: Cons.IH split: option.splits)
qed

lemma final_text_pages_extends:
  "\<exists>more. fst (fst (final_text_pages srv i us (t, f) s)) = t @ more"
proof (induction us arbitrary: i t f s)
  case Nil
  then show ?case by simp
next
  case (Cons u us)
  show ?case
    unfolding final_text_pages_step
    by (auto split: option.splits intro: Cons.IH) (metis Cons.IH append.assoc)
qed

lemma clean_empty_main: "clean_text (Elem ''main'' [] []) = []"
  by code_simp

lemma str_1950: "str_int 1950 = ''1950''"
  by code_simp

text \<open>
  Claim C8.  The issue \<open>empty_main\<close> has one page that can be fetched, and its body is an
  empty \<open>main\<close> element: no page has any text.  The text job of \<open>final_scrapping.py\<close>
  nevertheless reports success and writes a file that holds the page marker only; the
  month is recorded with \<open>has_text\<close> set and the scan address is never requested.  The
  empty element is the one the selector loop leaves in its variable when no selector
  has found enough text.
\<close>

theorem empty_page_counts_as_text:
  "fst (final_download_text_content (example_env empty_main in_order) ''http://x/v1''
          (text_file 1950 ''January'') script_init)
   \<and> files (snd (final_download_text_content (example_env empty_main in_order) ''http://x/v1''
          (text_file 1950 ''January'') script_init)) (text_file 1950 ''January'')
       = Some (page_marker ''1'' @ clean_text (Elem ''main'' [] []))
   \<and> clean_text (Elem ''main'' [] []) = []
   \<and> map_option has_text
        (the (fst (final_process_month (example_env empty_main in_order) 1950 ''January'' january
                     (Map.empty, script_init)) ''1950'') ''January'') = Some True
   \<and> requested (log (snd (final_process_month (example_env empty_main in_order) 1950 ''January''
                     january (Map.empty, script_init))))
       = [''http://x/v1'', ''http://x/v1.2'', ''http://x/v1.3'']"
proof -
  have t: "truthy (text_url january)" "the (text_url january) = ''http://x/v1''"
    by (simp_all add: january_def truthy_def)
  have e: "\<not> exists (text_file 1950 ''January'') script_init"
    by (simp add: exists_def script_init_def)
  have d: "fst (final_download_text_content (example_env empty_main in_order)
      (the (text_url january)) (text_file 1950 ''January'') script_init)"
    unfolding t by (rule empty_main_download)
  note pm = final_month_text_downloaded [OF t(1) e d, of Map.empty]
  show ?thesis
    unfolding pm
    by (simp add: empty_main_download clean_empty_main t log_save_metadata requested_append
        set_month_def str_1950 script_init_def)
qed


section \<open>The size filter for images\<close>

lemma is_large_image_sized:
  "get_attr img ''width'' = Some ws \<Longrightarrow> get_attr img ''height'' = Some hs \<Longrightarrow>
   px_int ws = Some w \<Longrightarrow> px_int hs = Some h \<Longrightarrow>
   is_large_image img = (300 \<le> w \<and> 300 \<le> h)"
  by (auto simp: is_large_image_def)

lemma is_large_image_unsized:
  "get_attr img ''width'' = None \<or> get_attr img ''height'' = None \<Longrightarrow> is_large_image img"
  by (auto simp: is_large_image_def split: option.splits)

lemma is_large_image_unparsable:
  "get_attr img ''width'' = Some ws \<Longrightarrow> get_attr img ''height'' = Some hs \<Longrightarrow>
   px_int ws = None \<or> px_int hs = None \<Longrightarrow> is_large_image img"
  by (auto simp: is_large_image_def split: option.splits)

lemma size_filters_on_examples: "\<not> gpu_size_ok bare_img" "is_large_image bare_img" "\<not> denylisted ''http://x/scan001.jpg''"
  "\<not> gpu_size_ok narrow_img" "is_large_image narrow_img"
  by code_simp+

lemma gpu_skips_bare_image: "fst (process_scan_page (example_env bare_image in_order) ''http://x/s1'' 0 ''scans''
            (RequestManager_init 1000)) = 0"
   "requested (log (snd (process_scan_page (example_env bare_image in_order) ''http://x/s1'' 0
                          ''scans'' (RequestManager_init 1000)))) = [''http://x/s1'']"
  by code_simp+

lemma final_saves_bare_image: "fst (final_scan_page (example_env bare_image in_order) ''http://x/s1'' 0 ''scans'' 0
            script_init) = 1"
   "files (snd (final_scan_page (example_env bare_image in_order) ''http://x/s1'' 0 ''scans'' 0
            script_init)) ''scans/page_001img001.jpg'' = Some ''JFIF''"
  by code_simp+

text \<open>
  Claim C4 on \<open>gpu_optimised.py\<close>.  The page of \<open>bare_image\<close> shows one image that
  declares no width and no height.  \<open>process_scan_page\<close> reads the absent attributes as
  \<open>'0'\<close>, finds 0 below 300 and skips the image: nothing is downloaded and the image
  is never requested.  \<open>download_scan_images\<close> of \<open>final_scrapping.py\<close> saves the same
  image.  An image of width 200 whose height is no number is skipped by the first
  script as well, and kept by the second.
\<close>

theorem unsized_image_skipped:
  "\<not> gpu_size_ok bare_img
   \<and> fst (process_scan_page (example_env bare_image in_order) ''http://x/s1'' 0 ''scans''
            (RequestManager_init 1000)) = 0
   \<and> requested (log (snd (process_scan_page (example_env bare_image in_order) ''http://x/s1'' 0
                          ''scans'' (RequestManager_init 1000)))) = [''http://x/s1'']
   \<and> is_large_image bare_img
   \<and> fst (final_scan_page (example_env bare_image in_order) ''http://x/s1'' 0 ''scans'' 0
            script_init) = 1
   \<and> files (snd (final_scan_page (example_env bare_image in_order) ''http://x/s1'' 0 ''scans'' 0
            script_init)) ''scans/page_001img001.jpg'' = Some ''JFIF''
   \<and> \<not> gpu_size_ok narrow_img
   \<and> is_large_image narrow_img"
  by (simp add: size_filters_on_examples gpu_skips_bare_image final_saves_bare_image)

section \<open>Pagination\<close>



























section \<open>The progress record and the month loop\<close>


lemma set_month_at: "the (set_month y m mm md (str_int y)) m = Some mm"
  by (simp add: set_month_def)





lemma final_month_shape:
  "\<exists>mm s2. final_process_month E y m v (md, s)
     = (set_month y m mm md, save_metadata E (set_month y m mm md) s2)"
proof (cases "final_try_text E y m v s")
  case (fields mm td s1)
  then show ?thesis
    by (cases "final_fall_back_to_scan E y m v mm td s1")
       (simp add: final_process_month_def, blast)
qed

lemma gpu_month_shape:
  "\<exists>mm s2. gpu_process_month E y m v (md, s)
     = (set_month y m mm md, save_metadata E (set_month y m mm md) s2)"
proof (cases "gpu_try_text E y m v s")
  case (fields mm td s1)
  then show ?thesis
    by (cases "gpu_fall_back_to_scan E y m v mm td s1")
       (simp add: gpu_process_month_def, blast)
qed




text \<open>
  Claim C3, amended.  After every month the scripts write the whole record, with the
  month just processed in it, to the metadata file, and a write that runs to its end
  leaves exactly the new dump there.  The write is made in place: the file is opened for
  writing, which empties it, and filled chunk by chunk, so a write cut short after \<open>k\<close>
  chunks leaves the first \<open>k\<close> chunks of the new dump and nothing of the old record.
\<close>

theorem saved_after_every_month:
  "files (snd (final_process_month E y m v (md, s))) metadata_file
     = Some (concat (json_chunks E (fst (final_process_month E y m v (md, s)))))
   \<and> files (snd (gpu_process_month E y m v (md, t))) metadata_file
     = Some (concat (json_chunks E (fst (gpu_process_month E y m v (md, t)))))
   \<and> the (fst (final_process_month E y m v (md, s)) (str_int y)) m \<noteq> None
   \<and> the (fst (gpu_process_month E y m v (md, t)) (str_int y)) m \<noteq> None
   \<and> files (interrupted_save E md' k w) metadata_file = Some (concat (take k (json_chunks E md')))
   \<and> files (interrupted_save E md' (length (json_chunks E md')) w) = files (save_metadata E md' w)"
proof -
  obtain mm s2 where f: "final_process_month E y m v (md, s)
     = (set_month y m mm md, save_metadata E (set_month y m mm md) s2)"
    using final_month_shape by blast
  obtain mm' t2 where g: "gpu_process_month E y m v (md, t)
     = (set_month y m mm' md, save_metadata E (set_month y m mm' md) t2)"
    using gpu_month_shape by blast
  show ?thesis
    unfolding f g
    by (simp add: save_metadata_def files_write_file set_month_at interrupted_save_def
        write_upto_at write_file_def)
qed

text \<open>
  Claim C3, as the specification states it, fails: a metadata file that holds \<open>{old}\<close>
  holds \<open>{\<close> when the save is cut short after the first chunk and nothing when it is
  cut short right after the file was opened, which is neither the old record nor the
  new one.
\<close>

theorem interrupted_save_counterexample:
  "files (interrupted_save (example_env empty_main in_order) Map.empty 1
            (script_init\<lparr>files := [metadata_file \<mapsto> ''{old}'']\<rparr>)) metadata_file = Some ''{''
   \<and> files (interrupted_save (example_env empty_main in_order) Map.empty 0
            (script_init\<lparr>files := [metadata_file \<mapsto> ''{old}'']\<rparr>)) metadata_file = Some []
   \<and> files (save_metadata (example_env empty_main in_order) Map.empty
            (script_init\<lparr>files := [metadata_file \<mapsto> ''{old}'']\<rparr>)) metadata_file = Some ''{}''"
  by (simp add: interrupted_save_def write_upto_at example_env_def save_metadata_def
      files_write_file)



section \<open>Images inside frames\<close>

lemma log_final_make_request:
  "set (log s) \<subseteq> set (log (snd (final_make_request srv u s)))"
  by (auto simp: final_make_request_def http_get_def sleep_def Let_def split: outcome.splits)

lemma log_final_frame_images:
  "set (log s) \<subseteq> set (log (snd (final_frame_images E frame_url pidx j out k imgs n s)))"
proof (induction imgs arbitrary: k n s)
  case Nil
  then show ?case by simp
next
  case (Cons img imgs)
  show ?case
  proof (cases "get_attr img ''src''")
    case None
    then show ?thesis using Cons.IH by simp
  next
    case (Some src)
    obtain q s1 where m: "final_make_request (server E) (urljoin E frame_url src) s = (q, s1)"
      by (cases "final_make_request (server E) (urljoin E frame_url src) s")
    have a: "set (log s) \<subseteq> set (log s1)"
      using log_final_make_request [of s "server E" "urljoin E frame_url src"] m by simp
    show ?thesis
    proof (cases q)
      case None
      with Some m a show ?thesis
        using Cons.IH [of s1 "k + 1" n] by auto
    next
      case (Some r)
      have "set (log s1) \<subseteq> set (log (write_file (frame_image_file out pidx j k) [content r] s1))"
        by (auto simp: log_write_file)
      with \<open>get_attr img ''src'' = Some src\<close> Some m a show ?thesis
        using Cons.IH [of "write_file (frame_image_file out pidx j k) [content r] s1" "k + 1" "n + 1"]
        by auto
    qed
  qed
qed

lemma final_frame_images_next:
  "\<exists>n' s'. final_frame_images E frame_url pidx j out k (img # imgs) n s
      = final_frame_images E frame_url pidx j out (k + 1) imgs n' s'"
proof (cases "get_attr img ''src''")
  case None
  then show ?thesis by auto
next
  case (Some src)
  obtain q s1 where "final_make_request (server E) (urljoin E frame_url src) s = (q, s1)"
    by (cases "final_make_request (server E) (urljoin E frame_url src) s")
  with Some show ?thesis by (cases q) auto
qed

lemma final_make_request_ok:
  assumes "\<And>h. \<exists>r. srv h url = Responded r \<and> status_code r = 200"
  shows "\<exists>r h s1. srv h url = Responded r \<and> final_make_request srv url s = (Some r, s1)
           \<and> set (log s) \<subseteq> set (log s1)"
proof -
  define s2 where "s2 =
    (if request_counter (s\<lparr>request_counter := request_counter s + 1\<rparr>) mod DELAY_AFTER_REQUESTS = 0
     then sleep DELAY_SECONDS (s\<lparr>request_counter := request_counter s + 1\<rparr>)
     else s\<lparr>request_counter := request_counter s + 1\<rparr>)"
  obtain r where r: "srv (requested (log s2)) url = Responded r" "status_code r = 200"
    using assms by blast
  have "final_make_request srv url s = (Some r, s2\<lparr>log := log s2 @ [Get url]\<rparr>)"
    unfolding final_make_request_def http_get_def Let_def s2_def [symmetric]
    using r by simp
  moreover have "set (log s) \<subseteq> set (log (s2\<lparr>log := log s2 @ [Get url]\<rparr>))"
    by (auto simp: s2_def sleep_def)
  ultimately show ?thesis using r(1) by blast
qed

lemma frame_images_write:
  assumes "m < length imgs" and "get_attr (imgs ! m) ''src'' = Some isrc"
    and "\<And>h. \<exists>r. server E h (urljoin E frame_url isrc) = Responded r \<and> status_code r = 200"
  shows "\<exists>r h. server E h (urljoin E frame_url isrc) = Responded r
           \<and> Write (frame_image_file out pidx j (k + m)) (content r)
               \<in> set (log (snd (final_frame_images E frame_url pidx j out k imgs n s)))"
  using assms(1,2)
proof (induction imgs arbitrary: k n s m)
  case Nil
  then show ?case by simp
next
  case (Cons img imgs)
  show ?case
  proof (cases m)
    case 0
    with Cons.prems have src: "get_attr img ''src'' = Some isrc" by simp
    obtain r h s1 where r: "server E h (urljoin E frame_url isrc) = Responded r"
      "final_make_request (server E) (urljoin E frame_url isrc) s = (Some r, s1)"
      using final_make_request_ok [of "server E" "urljoin E frame_url isrc" s, OF assms(3)] by blast
    let ?w = "write_file (frame_image_file out pidx j k) [content r] s1"
    have "Write (frame_image_file out pidx j k) (content r) \<in> set (log ?w)"
      by (simp add: log_write_file)
    then have "Write (frame_image_file out pidx j k) (content r)
        \<in> set (log (snd (final_frame_images E frame_url pidx j out (k + 1) imgs (n + 1) ?w)))"
      using log_final_frame_images by blast
    moreover have "final_frame_images E frame_url pidx j out k (img # imgs) n s
        = final_frame_images E frame_url pidx j out (k + 1) imgs (n + 1) ?w"
      using src r(2) by simp
    ultimately show ?thesis using r(1) 0 by auto
  next
    case (Suc m')
    with Cons.prems have "m' < length imgs" "get_attr (imgs ! m') ''src'' = Some isrc"
      by simp_all
    note ih = Cons.IH [OF this]
    obtain n' s' where "final_frame_images E frame_url pidx j out k (img # imgs) n s
        = final_frame_images E frame_url pidx j out (k + 1) imgs n' s'"
      using final_frame_images_next by blast
    then show ?thesis
      using ih [of "k + 1" n' s'] Suc by simp
  qed
qed

lemma log_final_frames:
  "set (log s) \<subseteq> set (log (snd (final_frames E page_url pidx out j frames n s)))"
proof (induction frames arbitrary: j n s)
  case Nil
  then show ?case by simp
next
  case (Cons frame frames)
  show ?case
  proof (cases "get_attr frame ''src''")
    case None
    then show ?thesis using Cons.IH by simp
  next
    case (Some src)
    obtain q s1 where m: "final_make_request (server E) (urljoin E page_url src) s = (q, s1)"
      by (cases "final_make_request (server E) (urljoin E page_url src) s")
    have a: "set (log s) \<subseteq> set (log s1)"
      using log_final_make_request [of s "server E" "urljoin E page_url src"] m by simp
    show ?thesis
    proof (cases q)
      case None
      with Some m a show ?thesis
        using Cons.IH [of s1 "j + 1" n] by auto
    next
      case (Some r)
      obtain n' s2 where f: "final_frame_images E (urljoin E page_url src) pidx j out 0
          (find_all (soup r) [''img'']) n s1 = (n', s2)"
        by (cases "final_frame_images E (urljoin E page_url src) pidx j out 0
          (find_all (soup r) [''img'']) n s1")
      have "set (log s1) \<subseteq> set (log s2)"
        using log_final_frame_images [of s1 E "urljoin E page_url src" pidx j out 0
            "find_all (soup r) [''img'']" n] f by simp
      with \<open>get_attr frame ''src'' = Some src\<close> Some m a f show ?thesis
        using Cons.IH [of s2 "j + 1" n'] by auto
    qed
  qed
qed

lemma final_frames_next:
  "\<exists>n' s'. final_frames E page_url pidx out j (frame # frames) n s
      = final_frames E page_url pidx out (j + 1) frames n' s'"
proof (cases "get_attr frame ''src''")
  case None
  then show ?thesis by auto
next
  case (Some src)
  obtain q s1 where m: "final_make_request (server E) (urljoin E page_url src) s = (q, s1)"
    by (cases "final_make_request (server E) (urljoin E page_url src) s")
  show ?thesis
  proof (cases q)
    case None
    with Some m show ?thesis by auto
  next
    case (Some r)
    obtain n' s2 where "final_frame_images E (urljoin E page_url src) pidx j out 0
        (find_all (soup r) [''img'']) n s1 = (n', s2)"
      by (cases "final_frame_images E (urljoin E page_url src) pidx j out 0
        (find_all (soup r) [''img'']) n s1")
    with \<open>get_attr frame ''src'' = Some src\<close> Some m show ?thesis by auto
  qed
qed

lemma final_make_request_page:
  assumes "\<And>h. srv h url = Responded r" and "status_code r = 200"
  shows "\<exists>s1. final_make_request srv url s = (Some r, s1)"
  using assms by (simp add: final_make_request_def http_get_def Let_def)

lemma frames_write:
  assumes "i < length frames" and "get_attr (frames ! i) ''src'' = Some fsrc"
    and "\<And>h. server E h (urljoin E page_url fsrc) = Responded fr" and "status_code fr = 200"
    and "m < length (find_all (soup fr) [''img''])"
    and "get_attr (find_all (soup fr) [''img''] ! m) ''src'' = Some isrc"
    and "\<And>h. \<exists>r. server E h (urljoin E (urljoin E page_url fsrc) isrc) = Responded r
              \<and> status_code r = 200"
  shows "\<exists>r h. server E h (urljoin E (urljoin E page_url fsrc) isrc) = Responded r
           \<and> Write (frame_image_file out pidx (j + i) m) (content r)
               \<in> set (log (snd (final_frames E page_url pidx out j frames n s)))"
  using assms(1,2)
proof (induction frames arbitrary: j n s i)
  case Nil
  then show ?case by simp
next
  case (Cons frame frames)
  show ?case
  proof (cases i)
    case 0
    with Cons.prems have src: "get_attr frame ''src'' = Some fsrc" by simp
    obtain s1 where p: "final_make_request (server E) (urljoin E page_url fsrc) s = (Some fr, s1)"
      using final_make_request_page [of "server E" "urljoin E page_url fsrc" fr s, OF assms(3,4)] by blast
    obtain n' s2 where f: "final_frame_images E (urljoin E page_url fsrc) pidx j out 0
        (find_all (soup fr) [''img'']) n s1 = (n', s2)"
      by (cases "final_frame_images E (urljoin E page_url fsrc) pidx j out 0
        (find_all (soup fr) [''img'']) n s1")
    obtain r h where r: "server E h (urljoin E (urljoin E page_url fsrc) isrc) = Responded r"
      "Write (frame_image_file out pidx j (0 + m)) (content r)
         \<in> set (log (snd (final_frame_images E (urljoin E page_url fsrc) pidx j out 0
              (find_all (soup fr) [''img'']) n s1)))"
      using frame_images_write [of m "find_all (soup fr) [''img'']" isrc E "urljoin E page_url fsrc"
          out pidx j 0 n s1, OF assms(5,6,7)] by blast
    then have "Write (frame_image_file out pidx j m) (content r) \<in> set (log s2)"
      using f by simp
    then have "Write (frame_image_file out pidx j m) (content r)
        \<in> set (log (snd (final_frames E page_url pidx out (j + 1) frames n' s2)))"
      using log_final_frames by blast
    moreover have "final_frames E page_url pidx out j (frame # frames) n s
        = final_frames E page_url pidx out (j + 1) frames n' s2"
      using src p f by simp
    ultimately show ?thesis using r(1) 0 by auto
  next
    case (Suc i')
    with Cons.prems have "i' < length frames" "get_attr (frames ! i') ''src'' = Some fsrc"
      by simp_all
    note ih = Cons.IH [OF this]
    obtain n' s' where "final_frames E page_url pidx out j (frame # frames) n s
        = final_frames E page_url pidx out (j + 1) frames n' s'"
      using final_frames_next by blast
    then show ?thesis
      using ih [of "j + 1" n' s'] Suc by simp
  qed
qed

lemma frame_image_file_jpg: "suffix ''.jpg'' (frame_image_file out pidx j k)"
  by (simp add: frame_image_file_def path_join_def suffix_def)

text \<open>
  Claim C10.  In \<open>download_scan_images\<close> of \<open>final_scrapping.py\<close> the frames of a page
  are visited exactly when the page gave no image directly.  When that is so, take any
  frame of the page that has a \<open>src\<close> and whose document the server delivers, and any
  image of that document that has a \<open>src\<close> and whose request is answered with 200:
  when the page is done, an answer of the server for the image has been written to
  the frame file of that frame and image, whose name ends in \<open>.jpg\<close>.  Nothing is
  asked of the image but its \<open>src\<close>: not its width or height, not the deny list, and
  the content type of the answer is not read.
\<close>

theorem frame_images_saved:
  assumes "\<And>h. server E h page_url = Responded pr" and "status_code pr = 200"
    and "fst (final_page_images E page_url pidx out 0 (find_all (soup pr) [''img'']) 0
                (snd (final_make_request (server E) page_url s))) = 0"
    and "i < length (find_all (soup pr) [''frame'', ''iframe''])"
    and "get_attr (find_all (soup pr) [''frame'', ''iframe''] ! i) ''src'' = Some fsrc"
    and "\<And>h. server E h (urljoin E page_url fsrc) = Responded fr" and "status_code fr = 200"
    and "m < length (find_all (soup fr) [''img''])"
    and "get_attr (find_all (soup fr) [''img''] ! m) ''src'' = Some isrc"
    and "\<And>h. \<exists>r. server E h (urljoin E (urljoin E page_url fsrc) isrc) = Responded r
              \<and> status_code r = 200"
  shows "(\<exists>r h. server E h (urljoin E (urljoin E page_url fsrc) isrc) = Responded r
            \<and> Write (frame_image_file out pidx i m) (content r)
                \<in> set (log (snd (final_scan_page E page_url pidx out downloaded s))))
    \<and> suffix ''.jpg'' (frame_image_file out pidx i m)
    \<and> final_scan_page E page_url pidx out downloaded s
       = (let direct = final_page_images E page_url pidx out 0 (find_all (soup pr) [''img'']) 0
                         (snd (final_make_request (server E) page_url s))
          in if fst direct = 0
             then final_frames E page_url pidx out 0 (find_all (soup pr) [''frame'', ''iframe''])
                    downloaded (snd direct)
             else (downloaded + fst direct, snd direct))"
proof -
  obtain s1 where p: "final_make_request (server E) page_url s = (Some pr, s1)"
    using final_make_request_page [of "server E" page_url pr s, OF assms(1,2)] by blast
  obtain d s2 where direct: "final_page_images E page_url pidx out 0
      (find_all (soup pr) [''img'']) 0 s1 = (d, s2)"
    by (cases "final_page_images E page_url pidx out 0 (find_all (soup pr) [''img'']) 0 s1")
  have z: "d = 0" using assms(3) p direct by simp
  have page: "final_scan_page E page_url pidx out downloaded s
       = (let direct = final_page_images E page_url pidx out 0 (find_all (soup pr) [''img'']) 0
                         (snd (final_make_request (server E) page_url s))
          in if fst direct = 0
             then final_frames E page_url pidx out 0 (find_all (soup pr) [''frame'', ''iframe''])
                    downloaded (snd direct)
             else (downloaded + fst direct, snd direct))"
    by (simp add: final_scan_page_def Let_def p split: prod.splits)
  have run: "final_scan_page E page_url pidx out downloaded s
      = final_frames E page_url pidx out 0 (find_all (soup pr) [''frame'', ''iframe''])
          downloaded s2"
    unfolding page by (simp add: p direct z)
  have "\<exists>r h. server E h (urljoin E (urljoin E page_url fsrc) isrc) = Responded r
           \<and> Write (frame_image_file out pidx (0 + i) m) (content r)
               \<in> set (log (snd (final_frames E page_url pidx out 0
                     (find_all (soup pr) [''frame'', ''iframe'']) downloaded s2)))"
    using assms(4-10) by (rule frames_write)
  then have saved: "\<exists>r h. server E h (urljoin E (urljoin E page_url fsrc) isrc) = Responded r
            \<and> Write (frame_image_file out pidx i m) (content r)
                \<in> set (log (snd (final_scan_page E page_url pidx out downloaded s)))"
    unfolding run by simp
  show ?thesis
    by (intro conjI) (rule saved, rule frame_image_file_jpg, rule page)
qed


lemma framed_documents:
  "find_all (soup (page [Elem ''iframe'' [(''src'', ''http://x/f1'')] []])) [''img''] = []"
  "find_all (soup (page [Elem ''iframe'' [(''src'', ''http://x/f1'')] []])) [''frame'', ''iframe'']
   = [Elem ''iframe'' [(''src'', ''http://x/f1'')] []]"
  "find_all (soup (page [tiny_logo])) [''img''] = [tiny_logo]"
  by code_simp+

lemma tiny_logo_filtered:
  "denylisted ''http://x/logo.png''" "\<not> is_large_image tiny_logo" "extension png = ''png''"
  "frame_image_file ''scans'' 0 0 0 = ''scans/page_001frame01img01.jpg''"
  by code_simp+

theorem frame_images_saved_witness:
  "denylisted ''http://x/logo.png'' \<and> \<not> is_large_image tiny_logo \<and> extension png = ''png''
   \<and> Write ''scans/page_001frame01img01.jpg'' ''PNG''
       \<in> set (log (snd (final_scan_page (example_env framed in_order) ''http://x/s1'' 0
                           ''scans'' 0 script_init)))"
proof -
  let ?E = "example_env framed in_order"
  let ?pr = "page [Elem ''iframe'' [(''src'', ''http://x/f1'')] []]"
  have e: "server ?E = framed" "\<And>a b. urljoin ?E a b = b"
    by (simp_all add: example_env_def)
  have h1: "\<And>h. server ?E h ''http://x/s1'' = Responded ?pr" "status_code ?pr = 200"
    by (simp_all add: e framed_def page_def)
  have h3: "fst (final_page_images ?E ''http://x/s1'' 0 ''scans'' 0
      (find_all (soup ?pr) [''img'']) 0
      (snd (final_make_request (server ?E) ''http://x/s1'' script_init))) = 0"
    by (simp add: framed_documents)
  have h4: "0 < length (find_all (soup ?pr) [''frame'', ''iframe''])"
    "get_attr (find_all (soup ?pr) [''frame'', ''iframe''] ! 0) ''src'' = Some ''http://x/f1''"
    by (simp_all add: framed_documents get_attr_def)
  have h6: "\<And>h. server ?E h (urljoin ?E ''http://x/s1'' ''http://x/f1'')
      = Responded (page [tiny_logo])" "status_code (page [tiny_logo]) = 200"
    by (simp_all add: e framed_def page_def)
  have h8: "0 < length (find_all (soup (page [tiny_logo])) [''img''])"
    "get_attr (find_all (soup (page [tiny_logo])) [''img''] ! 0) ''src''
     = Some ''http://x/logo.png''"
    unfolding framed_documents by (simp_all add: get_attr_def tiny_logo_def)
  have h10: "\<And>h. \<exists>r. server ?E h (urljoin ?E (urljoin ?E ''http://x/s1'' ''http://x/f1'')
        ''http://x/logo.png'') = Responded r \<and> status_code r = 200"
    by (simp add: e framed_def png_def)
  have r: "\<And>h r. server ?E h (urljoin ?E (urljoin ?E ''http://x/s1'' ''http://x/f1'')
        ''http://x/logo.png'') = Responded r \<Longrightarrow> content r = ''PNG''"
    by (auto simp: e framed_def png_def)
  have w: "Write ''scans/page_001frame01img01.jpg'' ''PNG''
       \<in> set (log (snd (final_scan_page ?E ''http://x/s1'' 0 ''scans'' 0 script_init)))"
    using frame_images_saved [of ?E "''http://x/s1''" ?pr 0 "''scans''" script_init 0
        "''http://x/f1''" "page [tiny_logo]" 0 "''http://x/logo.png''" 0,
        OF h1 h3 h4 h6 h8 h10, THEN conjunct1] r
    unfolding tiny_logo_filtered(4) by auto
  show ?thesis
    by (intro conjI) (rule tiny_logo_filtered(1), rule tiny_logo_filtered(2),
        rule tiny_logo_filtered(3), rule w)
qed

end
